theory Spec2Isabelle
  imports Complex_Main "HOL-Library.Sublist"
begin

section \<open>Text\<close>

text \<open>
  A Python \<open>str\<close> is a sequence of Unicode code points. It is modelled as a list of natural
  numbers, one per code point, so that \<open>length\<close> is Python's \<open>len\<close> and every text the
  program can receive (Cyrillic, emoji) is a value of the model. \<open>ustr\<close> turns an ASCII
  literal into such a text.
\<close>

type_synonym codepoint = nat
type_synonym pystr = "codepoint list"

definition ustr :: "string \<Rightarrow> pystr" where
  "ustr s = map of_char s"

text \<open>
  \<open>str.isspace\<close> on one code point, which is also what \<open>str.strip()\<close>, \<open>str.split()\<close> and the
  regular expression class \<open>\s\<close> use on a \<open>str\<close>: the code points CPython lists as whitespace.
\<close>

definition isspace :: "codepoint \<Rightarrow> bool" where
  "isspace c = (c \<in> set [9, 10, 11, 12, 13, 28, 29, 30, 31, 32, 133, 160, 5760,
     8192, 8193, 8194, 8195, 8196, 8197, 8198, 8199, 8200, 8201, 8202,
     8232, 8233, 8239, 8287, 12288])"

text \<open>\<open>s.split()\<close>: the maximal runs of code points that are not whitespace, in order.
  The first argument is the word being read.\<close>

fun split_acc :: "pystr \<Rightarrow> pystr \<Rightarrow> pystr list" where
  "split_acc w [] = (if w = [] then [] else [w])"
| "split_acc w (c # cs) =
     (if isspace c then (if w = [] then split_acc [] cs else w # split_acc [] cs)
      else split_acc (w @ [c]) cs)"

definition split_ws :: "pystr \<Rightarrow> pystr list" where
  "split_ws s = split_acc [] s"

text \<open>\<open>str.lower\<close> on ASCII text. The functions below take Python's \<open>str.lower\<close> (the full
  Unicode case mapping, which is not a per-character map) as a parameter \<open>lower\<close>; on ASCII
  text it is this function.\<close>

definition ascii_lower :: "pystr \<Rightarrow> pystr" where
  "ascii_lower s = map (\<lambda>c. if 65 \<le> c \<and> c \<le> 90 then c + 32 else c) s"

section \<open>Floats\<close>

text \<open>
  A Python \<open>float\<close> is an IEEE 754 double: a finite number, one of the two infinities, or
  NaN. The scores of the refinement loops and the arguments of the mode selector are values
  of \<open>pyfloat\<close>; the two zeros are the one value \<open>Fin 0\<close>, which no comparison tells apart.
  \<open>f_lt\<close> and \<open>f_le\<close> are Python's \<open><\<close> and \<open><=\<close> on floats: exact on the numbers, and false as
  soon as one side is NaN. \<open>x > y\<close> is \<open>y < x\<close> and \<open>x >= y\<close> is \<open>y <= x\<close>. The program compares
  scores and computes with them in two places only: the fallback score, a difference of
  multiples of 0.5, which doubles hold exactly; and the one subtraction of the mode
  selector, whose rounding is not fixed here: that subtraction is a parameter of the
  selector.

  Two places keep real numbers for floats, which the code there stores and never compares:
  the similarity ratio (a quotient of two set sizes) and the numbers of a parsed report.
\<close>

datatype pyfloat = Fin real | PInf | NInf | NaN

fun f_lt :: "pyfloat \<Rightarrow> pyfloat \<Rightarrow> bool" where
  "f_lt (Fin a) (Fin b) = (a < b)"
| "f_lt (Fin a) PInf = True"
| "f_lt NInf (Fin b) = True"
| "f_lt NInf PInf = True"
| "f_lt _ _ = False"

fun f_le :: "pyfloat \<Rightarrow> pyfloat \<Rightarrow> bool" where
  "f_le (Fin a) (Fin b) = (a \<le> b)"
| "f_le (Fin a) PInf = True"
| "f_le NInf (Fin b) = True"
| "f_le NInf PInf = True"
| "f_le NInf NInf = True"
| "f_le PInf PInf = True"
| "f_le _ _ = False"

abbreviation f_gt :: "pyfloat \<Rightarrow> pyfloat \<Rightarrow> bool" where
  "f_gt x y \<equiv> f_lt y x"

abbreviation f_ge :: "pyfloat \<Rightarrow> pyfloat \<Rightarrow> bool" where
  "f_ge x y \<equiv> f_le y x"

text \<open>
  The doubles that the literals \<open>0.95\<close> and \<open>0.97\<close> denote (the doubles nearest to them; the
  other literals compared with a score, \<open>0.5\<close>, \<open>7.0\<close> and \<open>0\<close>, are doubles themselves).
\<close>

definition double_0_95 :: real where
  "double_0_95 = 4278419646001971 / 2 ^ 52"

definition double_0_97 :: real where
  "double_0_97 = 4368491638549381 / 2 ^ 52"

section \<open>SimilarityMeasure: \<open>calculate_text_similarity\<close>\<close>

text \<open>
  \<open>words1 = set(text1.lower().split())\<close>, the same for \<open>text2\<close>; 1.0 when both sets are empty,
  0.0 when one is, else \<open>len(intersection) / len(union)\<close>. The body is inside
  \<open>try ... except Exception: return 0.5\<close>; on two \<open>str\<close> arguments none of its operations
  raises (the division is guarded by \<open>union > 0\<close>), so the handler is not a branch of the model.
\<close>

definition word_set :: "(pystr \<Rightarrow> pystr) \<Rightarrow> pystr \<Rightarrow> pystr set" where
  "word_set lower t = set (split_ws (lower t))"

definition calculate_text_similarity :: "(pystr \<Rightarrow> pystr) \<Rightarrow> pystr \<Rightarrow> pystr \<Rightarrow> real" where
  "calculate_text_similarity lower text1 text2 =
     (let words1 = word_set lower text1; words2 = word_set lower text2 in
      if words1 = {} \<and> words2 = {} then 1
      else if words1 = {} \<or> words2 = {} then 0
      else (let intersection = card (words1 \<inter> words2); union = card (words1 \<union> words2)
            in if union > 0 then real intersection / real union else 0))"

section \<open>ModeSelector: \<open>determine_editing_mode\<close>\<close>

text \<open>
  \<open>score_delta = current_score - prev_score if prev_score > 0 else 0.0\<close>, then three tests in
  order, each returning \<open>"hard"\<close>, and \<open>"soft"\<close> at the end. The three scores are floats, as
  annotated; \<open>fsub\<close> is Python's subtraction of two floats (the difference rounded to a
  double, an infinity or NaN), a parameter of the model.
\<close>

definition determine_editing_mode ::
  "(pyfloat \<Rightarrow> pyfloat \<Rightarrow> pyfloat) \<Rightarrow> int \<Rightarrow> pyfloat \<Rightarrow> pyfloat \<Rightarrow> pyfloat \<Rightarrow> string" where
  "determine_editing_mode fsub iteration current_score prev_score similarity =
     (let score_delta = (if f_gt prev_score (Fin 0) then fsub current_score prev_score
                         else Fin 0) in
      if iteration \<ge> 2 \<and> f_lt score_delta (Fin 0.5) then ''hard''
      else if f_gt similarity (Fin double_0_95) then ''hard''
      else if iteration \<ge> 3 \<and> f_lt current_score (Fin 7.0) then ''hard''
      else ''soft'')"

section \<open>Text operations used by the engine\<close>

text \<open>\<open>s.strip()\<close>, \<open>s.rstrip()\<close> and \<open>s.lstrip()\<close> with no argument remove whitespace.\<close>

definition lstrip :: "pystr \<Rightarrow> pystr" where
  "lstrip s = dropWhile isspace s"

definition rstrip :: "pystr \<Rightarrow> pystr" where
  "rstrip s = rev (dropWhile isspace (rev s))"

definition strip :: "pystr \<Rightarrow> pystr" where
  "strip s = rstrip (lstrip s)"

text \<open>\<open>sub in s\<close> for two strings.\<close>

fun is_substr :: "pystr \<Rightarrow> pystr \<Rightarrow> bool" where
  "is_substr sub [] = (sub = [])"
| "is_substr sub (c # cs) = (prefix sub (c # cs) \<or> is_substr sub cs)"

text \<open>
  \<open>s.replace(old, new)\<close>: every occurrence of \<open>old\<close>, found from the left without overlap.
  For an empty \<open>old\<close> Python puts \<open>new\<close> before every code point and at the end.
\<close>

function py_replace :: "pystr \<Rightarrow> pystr \<Rightarrow> pystr \<Rightarrow> pystr" where
  "py_replace old new s =
     (if old = [] then new @ concat (map (\<lambda>c. c # new) s)
      else if s = [] then []
      else if prefix old s then new @ py_replace old new (drop (length old) s)
      else hd s # py_replace old new (tl s))"
  by pat_completeness auto
termination
  by (relation "measure (\<lambda>(old, new, s). length s)") auto

declare py_replace.simps [simp del]

text \<open>\<open>s.replace(old, new, 1)\<close>: the first occurrence only.\<close>

fun replace_first :: "pystr \<Rightarrow> pystr \<Rightarrow> pystr \<Rightarrow> pystr" where
  "replace_first old new [] = (if old = [] then new else [])"
| "replace_first old new (c # cs) =
     (if prefix old (c # cs) then new @ drop (length old) (c # cs)
      else c # replace_first old new cs)"

section \<open>Scorer and fixer: the two calls to the external service\<close>

text \<open>
  What one HTTP request to the service comes back with, as \<open>validate_and_score\<close> and
  \<open>fix_text_with_claude\<close> tell the cases apart.
\<close>

datatype http_reply =
    Reply200 pystr
  | Reply200_malformed
  | ReplyStatus nat
  | ReplyFailure

text \<open>
  \<open>Reply200 t\<close>: status 200 and \<open>result['content'][0]['text']\<close> is the string \<open>t\<close>.
  \<open>Reply200_malformed\<close>: status 200 and reading that field raises. \<open>ReplyStatus\<close>: another
  status. \<open>ReplyFailure\<close>: the request itself raises. The dictionary \<open>validate_and_score\<close>
  returns is modelled by the three keys its callers read.
\<close>

record score_report =
  score :: pyfloat
  issues :: "pystr list"
  suggestions :: "pystr list"

definition msg_no_api_key :: pystr where
  "msg_no_api_key =
    [65, 80, 73, 32, 1082, 1083, 1102, 1095, 32, 1085, 1077, 32, 1085, 1072, 1089, 1090,
     1088, 1086, 1077, 1085]"

definition msg_api_error :: pystr where
  "msg_api_error =
    [1054, 1096, 1080, 1073, 1082, 1072, 32, 65, 80, 73, 32, 1074, 1072, 1083, 1080,
     1076, 1072, 1094, 1080, 1080]"

text \<open>
  \<open>validate_and_score\<close>. \<open>py_float\<close> is Python's \<open>float\<close> on a string (\<open>None\<close> where it raises
  \<open>ValueError\<close>; it returns NaN on \<open>"nan"\<close> and an infinity on \<open>"inf"\<close> or \<open>"1e999"\<close>), a parameter
  of the model; \<open>api_key\<close> says whether the key is set. Every failure inside the \<open>try\<close> ends in
  the default report with score 5.0.
\<close>

definition validate_and_score ::
  "(pystr \<Rightarrow> pyfloat option) \<Rightarrow> bool \<Rightarrow> http_reply \<Rightarrow> score_report" where
  "validate_and_score py_float api_key reply =
     (if \<not> api_key then \<lparr>score = Fin 5.0, issues = [msg_no_api_key], suggestions = []\<rparr>
      else (case reply of
          Reply200 body \<Rightarrow>
            (case py_float (strip (py_replace (ustr '','') (ustr ''.'') (strip body))) of
               Some s \<Rightarrow> \<lparr>score = s, issues = [], suggestions = []\<rparr>
             | None \<Rightarrow> \<lparr>score = Fin 5.0, issues = [msg_api_error], suggestions = []\<rparr>)
        | _ \<Rightarrow> \<lparr>score = Fin 5.0, issues = [msg_api_error], suggestions = []\<rparr>))"

text \<open>\<open>fix_text_with_claude\<close>: the stripped reply on status 200, the text it was given otherwise.\<close>

definition fix_text_with_claude :: "bool \<Rightarrow> pystr \<Rightarrow> http_reply \<Rightarrow> pystr" where
  "fix_text_with_claude api_key txt reply =
     (if \<not> api_key then txt
      else (case reply of Reply200 body \<Rightarrow> strip body | _ \<Rightarrow> txt))"

section \<open>RefinementOrchestrator: \<open>ClaudeValidatorAgent.iterative_refinement\<close>\<close>

text \<open>
  The services are oracles: \<open>critic k t\<close> is the reply to the scoring request made after \<open>k\<close>
  earlier scoring requests, for the text \<open>t\<close>; \<open>fixer k t\<close> the reply to the fixing request made
  after \<open>k\<close> earlier ones. A run returns the pair \<open>(current_text, score)\<close>; the model adds the
  list of scoring passes made (the text scored and its score, in order) and the value of the
  loop counter \<open>iteration\<close> when the loop was left. The optional \<open>update_callback\<close> is called
  inside \<open>try ... except: pass\<close> and has no effect on the run.
\<close>

record refinement_run =
  final_text :: pystr
  final_score :: pyfloat
  passes :: "(pystr \<times> pyfloat) list"
  iterations :: int

text \<open>The code after the loop: one more scoring pass, of \<open>current_text\<close>.\<close>

definition final_check ::
  "(pystr \<Rightarrow> pyfloat option) \<Rightarrow> bool \<Rightarrow> (nat \<Rightarrow> pystr \<Rightarrow> http_reply) \<Rightarrow> int \<Rightarrow> pystr
     \<Rightarrow> (pystr \<times> pyfloat) list \<Rightarrow> refinement_run" where
  "final_check py_float api_key critic iteration current_text trace =
     (let final_score = score (validate_and_score py_float api_key
                                 (critic (length trace) current_text))
      in \<lparr>final_text = current_text, final_score = final_score,
          passes = trace @ [(current_text, final_score)], iterations = iteration\<rparr>)"

text \<open>The \<open>while iteration < max_iterations\<close> loop; each \<open>break\<close> goes to \<open>final_check\<close>.\<close>

function refinement_loop ::
  "(pystr \<Rightarrow> pyfloat option) \<Rightarrow> bool \<Rightarrow> (nat \<Rightarrow> pystr \<Rightarrow> http_reply)
     \<Rightarrow> (nat \<Rightarrow> pystr \<Rightarrow> http_reply) \<Rightarrow> pyfloat \<Rightarrow> int \<Rightarrow> int \<Rightarrow> pystr
     \<Rightarrow> (pystr \<times> pyfloat) list \<Rightarrow> refinement_run" where
  "refinement_loop py_float api_key critic fixer target_score max_iterations
       iteration current_text trace =
     (if iteration < max_iterations then
        (let current_score = score (validate_and_score py_float api_key
                                      (critic (length trace) current_text));
             trace' = trace @ [(current_text, current_score)]
         in if f_ge current_score target_score
            then \<lparr>final_text = current_text, final_score = current_score,
                  passes = trace', iterations = iteration + 1\<rparr>
            else (let improved_text = fix_text_with_claude api_key current_text
                                        (fixer (length trace) current_text)
                  in if improved_text \<noteq> [] \<and> length (strip improved_text) > 100
                     then (if real (length improved_text) < real (length current_text) * 0.7
                           then final_check py_float api_key critic (iteration + 1)
                                  current_text trace'
                           else refinement_loop py_float api_key critic fixer target_score
                                  max_iterations (iteration + 1) improved_text trace')
                     else final_check py_float api_key critic (iteration + 1)
                            current_text trace'))
      else final_check py_float api_key critic iteration current_text trace)"
  by pat_completeness auto
termination
  by (relation "measure (\<lambda>(pf, k, c, f, t, m, i, x, tr). nat (m - i))") auto

declare refinement_loop.simps [simp del]

definition iterative_refinement ::
  "(pystr \<Rightarrow> pyfloat option) \<Rightarrow> bool \<Rightarrow> (nat \<Rightarrow> pystr \<Rightarrow> http_reply)
     \<Rightarrow> (nat \<Rightarrow> pystr \<Rightarrow> http_reply) \<Rightarrow> pyfloat \<Rightarrow> int \<Rightarrow> pystr \<Rightarrow> refinement_run" where
  "iterative_refinement py_float api_key critic fixer target_score max_iterations txt =
     refinement_loop py_float api_key critic fixer target_score max_iterations 0 txt []"

text \<open>\<open>float\<close> on the one-digit strings \<open>"0"\<close> to \<open>"9"\<close>, for the examples below.\<close>

definition float_of_digit :: "pystr \<Rightarrow> pyfloat option" where
  "float_of_digit s =
     (case s of [c] \<Rightarrow> (if 48 \<le> c \<and> c \<le> 57 then Some (Fin (real (c - 48))) else None)
              | _ \<Rightarrow> None)"

text \<open>
  The texts of a run in which every candidate is accepted: the \<open>k\<close>-th is what the fixer
  made of the one before, starting from the text given. \<open>candidate_accepted\<close> is the test a
  candidate passes to become the current text: not empty, more than 100 code points once
  stripped, and not shorter than 0.7 times the current text.
\<close>

fun nth_candidate :: "bool \<Rightarrow> (nat \<Rightarrow> pystr \<Rightarrow> http_reply) \<Rightarrow> pystr \<Rightarrow> nat \<Rightarrow> pystr" where
  "nth_candidate api_key fixer t0 0 = t0"
| "nth_candidate api_key fixer t0 (Suc k) =
     fix_text_with_claude api_key (nth_candidate api_key fixer t0 k)
       (fixer k (nth_candidate api_key fixer t0 k))"

definition candidate_accepted :: "pystr \<Rightarrow> pystr \<Rightarrow> bool" where
  "candidate_accepted current_text improved_text \<longleftrightarrow>
     improved_text \<noteq> [] \<and> length (strip improved_text) > 100
     \<and> \<not> real (length improved_text) < real (length current_text) * 0.7"

section \<open>RefinementOrchestrator: \<open>RLHFFeedbackSystem.iterative_improvement\<close>\<close>

datatype py_error = TypeError | AttributeError | ReError

definition msg_too_short :: pystr where
  "msg_too_short =
    [1058, 1077, 1082, 1089, 1090, 32, 1089, 1083, 1080, 1096, 1082, 1086, 1084, 32,
     1082, 1086, 1088, 1086, 1090, 1082, 1080, 1081]"

definition hint_too_short :: pystr where
  "hint_too_short =
    [1059, 1074, 1077, 1083, 1080, 1095, 1100, 32, 1086, 1073, 1098, 1077, 1084, 32,
     1090, 1077, 1082, 1089, 1090, 1072, 32, 1076, 1086, 32, 1084, 1080, 1085, 1080,
     1084, 1091, 1084, 32, 49, 48, 48, 48, 32, 1089, 1083, 1086, 1074]"

definition msg_few_emoji :: pystr where
  "msg_few_emoji =
    [1053, 1077, 1076, 1086, 1089, 1090, 1072, 1090, 1086, 1095, 1085, 1086, 32, 1101,
     1084, 1086, 1076, 1079, 1080]"

definition hint_few_emoji :: pystr where
  "hint_few_emoji =
    [1044, 1086, 1073, 1072, 1074, 1100, 32, 1073, 1086, 1083, 1100, 1096, 1077, 32,
     1101, 1084, 1086, 1076, 1079, 1080, 32, 1076, 1083, 1103, 32, 1089, 1090, 1088,
     1091, 1082, 1090, 1091, 1088, 1080, 1088, 1086, 1074, 1072, 1085, 1080, 1103]"

definition msg_no_headings :: pystr where
  "msg_no_headings =
    [1054, 1090, 1089, 1091, 1090, 1089, 1090, 1074, 1091, 1102, 1090, 32, 1079, 1072,
     1075, 1086, 1083, 1086, 1074, 1082, 1080]"

definition hint_no_headings :: pystr where
  "hint_no_headings =
    [1044, 1086, 1073, 1072, 1074, 1100, 32, 1079, 1072, 1075, 1086, 1083, 1086, 1074,
     1082, 1080, 32, 1089, 32, 1101, 1084, 1086, 1076, 1079, 1080, 32, 127775]"

text \<open>
  \<open>_fallback_scoring\<close>: 5.0, less 2.0 for a text under 500 code points, less 1.0 for fewer
  than 10 code points above 127, less 1.5 without the star emoji (code point 127775); the
  score is \<open>max(1.0, score)\<close>.
\<close>

definition fallback_scoring :: "pystr \<Rightarrow> score_report" where
  "fallback_scoring txt =
     (let too_short = (length txt < 500);
          emoji_count = length (filter (\<lambda>c. c > 127) txt);
          few_emoji = (emoji_count < 10);
          no_star = (\<not> is_substr [127775] txt);
          s = 5.0 - (if too_short then 2.0 else 0) - (if few_emoji then 1.0 else 0)
                  - (if no_star then 1.5 else 0)
      in \<lparr>score = Fin (max 1.0 s),
          issues = (if too_short then [msg_too_short] else [])
                   @ (if few_emoji then [msg_few_emoji] else [])
                   @ (if no_star then [msg_no_headings] else []),
          suggestions = (if too_short then [hint_too_short] else [])
                        @ (if few_emoji then [hint_few_emoji] else [])
                        @ (if no_star then [hint_no_headings] else [])\<rparr>)"

definition word_short :: pystr where
  "word_short = [1082, 1086, 1088, 1086, 1090, 1082, 1080, 1081]"

definition word_emoji :: pystr where
  "word_emoji = [1101, 1084, 1086, 1076, 1079, 1080]"

definition extra_section :: pystr where
  "extra_section =
    [10, 10, 127775, 32, 1044, 1086, 1087, 1086, 1083, 1085, 1080, 1090, 1077, 1083,
     1100, 1085, 1099, 1081, 32, 1072, 1085, 1072, 1083, 1080, 1079, 10, 10, 1044, 1072,
     1085, 1085, 1072, 1103, 32, 1082, 1086, 1084, 1087, 1072, 1085, 1080, 1103, 32,
     1086, 1073, 1083, 1072, 1076, 1072, 1077, 1090, 32, 1091, 1085, 1080, 1082, 1072,
     1083, 1100, 1085, 1099, 1084, 1080, 32, 1072, 1089, 1090, 1088, 1086, 1083, 1086,
     1075, 1080, 1095, 1077, 1089, 1082, 1080, 1084, 1080, 32, 1093, 1072, 1088, 1072,
     1082, 1090, 1077, 1088, 1080, 1089, 1090, 1080, 1082, 1072, 1084, 1080, 44, 32,
     1082, 1086, 1090, 1086, 1088, 1099, 1077, 32, 1086, 1087, 1088, 1077, 1076, 1077,
     1083, 1103, 1102, 1090, 32, 1077, 1105, 32, 1087, 1086, 1090, 1077, 1085, 1094,
     1080, 1072, 1083, 32, 1080, 32, 1074, 1086, 1079, 1084, 1086, 1078, 1085, 1086,
     1089, 1090, 1080, 32, 1088, 1072, 1079, 1074, 1080, 1090, 1080, 1103, 46]"

text \<open>
  \<open>word in str(issues)\<close> for a word of Cyrillic letters: \<open>str\<close> of a list of strings joins
  their \<open>repr\<close>s with ASCII separators, and \<open>repr\<close> keeps such letters as they are, so the
  word is in it exactly when it is in one of the strings.
\<close>

definition in_str_of_list :: "pystr \<Rightarrow> pystr list \<Rightarrow> bool" where
  "in_str_of_list w xs = list_ex (is_substr w) xs"

text \<open>\<open>_fallback_fix\<close>; 127775 and 128142 are the star and the gem emoji.\<close>

definition fallback_fix :: "pystr \<Rightarrow> pystr list \<Rightarrow> pystr" where
  "fallback_fix txt iss =
     (let improved1 = (if in_str_of_list word_short iss then txt @ extra_section else txt)
      in if in_str_of_list word_emoji iss
         then [127775, 32] @ replace_first [10] [10, 128142, 32] improved1
         else improved1)"

record iteration_data =
  it_iteration :: int
  it_score :: pyfloat
  it_issues :: "pystr list"
  it_suggestions :: "pystr list"
  it_text_length :: nat

text \<open>
  A run returns \<open>(text, score, iteration_history)\<close>; the model adds the list of scoring
  passes, as above.
\<close>

record rlhf_run =
  rlhf_text :: pystr
  rlhf_score :: pyfloat
  rlhf_history :: "iteration_data list"
  rlhf_passes :: "(pystr \<times> pyfloat) list"

text \<open>
  The \<open>for iteration in range(1, self.max_iterations + 1)\<close> loop. \<open>use_claude\<close> is the test
  \<open>hasattr(self.validator, 'claude_agent') and self.validator.use_claude\<close>. \<open>generate k t\<close>
  is what the \<open>generation_function\<close> returns on the request made after \<open>k\<close> scoring passes
  (\<open>None\<close>: it raises). When it raises and \<open>use_claude\<close> holds, the handler calls
  \<open>fix_text_with_claude(current_text, issues, target_score)\<close>, one positional argument more
  than that method takes: a \<open>TypeError\<close> that leaves \<open>iterative_improvement\<close>.
\<close>

function rlhf_loop ::
  "(pystr \<Rightarrow> pyfloat option) \<Rightarrow> bool \<Rightarrow> bool \<Rightarrow> (nat \<Rightarrow> pystr \<Rightarrow> http_reply)
     \<Rightarrow> (nat \<Rightarrow> pystr \<Rightarrow> pystr option) \<Rightarrow> pyfloat \<Rightarrow> int \<Rightarrow> int \<Rightarrow> pystr \<Rightarrow> pystr \<Rightarrow> pyfloat
     \<Rightarrow> iteration_data list \<Rightarrow> (pystr \<times> pyfloat) list \<Rightarrow> py_error + rlhf_run" where
  "rlhf_loop py_float api_key use_claude critic generate target_score max_iterations
       iteration current_text best_text best_score history trace =
     (if iteration \<le> max_iterations then
        (let validation_result =
               (if use_claude
                then validate_and_score py_float api_key (critic (length trace) current_text)
                else fallback_scoring current_text);
             current_score = score validation_result;
             history' = history @ [\<lparr>it_iteration = iteration, it_score = current_score,
                           it_issues = issues validation_result,
                           it_suggestions = suggestions validation_result,
                           it_text_length = length current_text\<rparr>];
             trace' = trace @ [(current_text, current_score)];
             best_score' = (if f_gt current_score best_score then current_score
                            else best_score);
             best_text' = (if f_gt current_score best_score then current_text else best_text)
         in if f_ge current_score target_score
            then Inr \<lparr>rlhf_text = current_text, rlhf_score = current_score,
                      rlhf_history = history', rlhf_passes = trace'\<rparr>
            else if iteration < max_iterations
            then (case generate (length trace) current_text of
                    Some improved_text \<Rightarrow>
                      rlhf_loop py_float api_key use_claude critic generate target_score
                        max_iterations (iteration + 1) improved_text best_text' best_score'
                        history' trace'
                  | None \<Rightarrow>
                      if use_claude then Inl TypeError
                      else rlhf_loop py_float api_key use_claude critic generate target_score
                             max_iterations (iteration + 1)
                             (fallback_fix current_text (issues validation_result))
                             best_text' best_score' history' trace')
            else rlhf_loop py_float api_key use_claude critic generate target_score
                   max_iterations (iteration + 1) current_text best_text' best_score'
                   history' trace')
      else Inr \<lparr>rlhf_text = best_text, rlhf_score = best_score,
                rlhf_history = history, rlhf_passes = trace\<rparr>)"
  by pat_completeness auto
termination
  by (relation "measure (\<lambda>(pf, k, u, c, g, t, m, i, x, bt, bs, h, tr). nat (m + 1 - i))") auto

declare rlhf_loop.simps [simp del]

text \<open>\<open>self.target_scores.get(analysis_type, 8.5)\<close>.\<close>

definition rlhf_target :: "pystr \<Rightarrow> pyfloat" where
  "rlhf_target analysis_type =
     (if analysis_type = ustr ''zodiac'' then Fin 8.5
      else if analysis_type = ustr ''forecast'' then Fin 9.0
      else if analysis_type = ustr ''compatibility'' then Fin 8.0
      else Fin 8.5)"

text \<open>\<open>iterative_improvement\<close>; \<open>max_iterations\<close> is the attribute \<open>self.max_iterations\<close>
  (5 when the object is made).\<close>

definition iterative_improvement ::
  "(pystr \<Rightarrow> pyfloat option) \<Rightarrow> bool \<Rightarrow> bool \<Rightarrow> (nat \<Rightarrow> pystr \<Rightarrow> http_reply)
     \<Rightarrow> (nat \<Rightarrow> pystr \<Rightarrow> pystr option) \<Rightarrow> int \<Rightarrow> pystr \<Rightarrow> pystr \<Rightarrow> py_error + rlhf_run" where
  "iterative_improvement py_float api_key use_claude critic generate max_iterations
       initial_text analysis_type =
     rlhf_loop py_float api_key use_claude critic generate (rlhf_target analysis_type)
       max_iterations 1 initial_text initial_text (Fin 0) [] []"

section \<open>Reports as Python values\<close>

text \<open>
  A report is a Python \<open>dict\<close> made by \<open>json.loads\<close> (or by hand); its values are \<open>None\<close>,
  booleans, numbers, strings, lists and dicts. A dict is an association list, looked up
  from the front.
\<close>

datatype json =
    JNull
  | JBool bool
  | JInt int
  | JFloat real
  | JStr pystr
  | JArr "json list"
  | JObj "(pystr \<times> json) list"

type_synonym pydict = "(pystr \<times> json) list"

text \<open>Truth value of a Python object, as \<open>if x\<close> and \<open>x or y\<close> take it.\<close>

fun py_truthy :: "json \<Rightarrow> bool" where
  "py_truthy JNull = False"
| "py_truthy (JBool b) = b"
| "py_truthy (JInt i) = (i \<noteq> 0)"
| "py_truthy (JFloat r) = (r \<noteq> 0)"
| "py_truthy (JStr s) = (s \<noteq> [])"
| "py_truthy (JArr xs) = (xs \<noteq> [])"
| "py_truthy (JObj kvs) = (kvs \<noteq> [])"

text \<open>\<open>d.get(key)\<close> (\<open>None\<close> for a missing key) and \<open>d.get(key, default)\<close>.\<close>

definition dict_get :: "pydict \<Rightarrow> pystr \<Rightarrow> json" where
  "dict_get d key = (case map_of d key of None \<Rightarrow> JNull | Some v \<Rightarrow> v)"

definition dict_get_default :: "pydict \<Rightarrow> pystr \<Rightarrow> json \<Rightarrow> json" where
  "dict_get_default d key dflt = (case map_of d key of None \<Rightarrow> dflt | Some v \<Rightarrow> v)"

text \<open>
  \<open>for x in v\<close>: the elements of a list, the one-character strings of a string, the keys of a
  dict; \<open>TypeError\<close> for \<open>None\<close>, a boolean or a number.
\<close>

fun py_iter :: "json \<Rightarrow> py_error + json list" where
  "py_iter (JArr xs) = Inr xs"
| "py_iter (JStr s) = Inr (map (\<lambda>c. JStr [c]) s)"
| "py_iter (JObj kvs) = Inr (map (\<lambda>kv. JStr (fst kv)) kvs)"
| "py_iter v = Inl TypeError"

text \<open>
  \<open>(p.get(key) or dflt).strip()\<close>: \<open>AttributeError\<close> when \<open>p\<close> is not a dict (it has no \<open>get\<close>)
  and when the value is true and not a string (it has no \<open>strip\<close>).
\<close>

definition get_stripped :: "json \<Rightarrow> pystr \<Rightarrow> pystr \<Rightarrow> py_error + pystr" where
  "get_stripped p key dflt =
     (case p of
        JObj kvs \<Rightarrow>
          (let v = dict_get kvs key;
               w = (if py_truthy v then v else JStr dflt)
           in case w of JStr s \<Rightarrow> Inr (strip s) | _ \<Rightarrow> Inl AttributeError)
      | _ \<Rightarrow> Inl AttributeError)"

section \<open>PatchEngine: the two regular expressions\<close>

text \<open>
  \<open>find_section\<close> searches \<open>(?m)^\s*TITLE\s*$\<close> and the section patches use
  \<open>(?ms)^\s*TITLE\s*$.*?(?=^\S|\Z)\<close>, where \<open>TITLE\<close> is \<open>re.escape(title)\<close>, which matches the
  title literally. Both are modelled as the backtracking matcher runs them: at a start
  position, \<open>^\<close>, then \<open>\s*\<close> tried from the longest run to the empty one, the title, \<open>\s*\<close>
  again longest first, \<open>$\<close>, and for the second pattern \<open>.*?\<close> tried from the shortest
  extension until the lookahead holds. Positions are indices into the text, from 0 to its
  length.
\<close>

fun first_some :: "('a \<Rightarrow> 'b option) \<Rightarrow> 'a list \<Rightarrow> 'b option" where
  "first_some f [] = None"
| "first_some f (x # xs) = (case f x of Some y \<Rightarrow> Some y | None \<Rightarrow> first_some f xs)"

text \<open>\<open>^\<close> and \<open>$\<close> under \<open>(?m)\<close>: after a newline or at the start; before a newline or at the
  end.\<close>

definition at_bol :: "pystr \<Rightarrow> nat \<Rightarrow> bool" where
  "at_bol s i = (i = 0 \<or> (i \<le> length s \<and> s ! (i - 1) = 10))"

definition at_eol :: "pystr \<Rightarrow> nat \<Rightarrow> bool" where
  "at_eol s i = (i = length s \<or> (i < length s \<and> s ! i = 10))"

text \<open>The number of whitespace code points from position \<open>p\<close> on, and the counts a greedy
  \<open>\s*\<close> tries there, in order.\<close>

definition ws_run :: "pystr \<Rightarrow> nat \<Rightarrow> nat" where
  "ws_run s p = length (takeWhile isspace (drop p s))"

definition greedy_counts :: "pystr \<Rightarrow> nat \<Rightarrow> nat list" where
  "greedy_counts s p = rev [0..<Suc (ws_run s p)]"

text \<open>The lookahead \<open>(?=^\S|\Z)\<close> at position \<open>q\<close>, and the end \<open>.*?\<close> (under \<open>(?s)\<close>) reaches
  from \<open>q\<close>: the first position from \<open>q\<close> on where the lookahead holds.\<close>

definition lookahead :: "pystr \<Rightarrow> nat \<Rightarrow> bool" where
  "lookahead s q = ((at_bol s q \<and> q < length s \<and> \<not> isspace (s ! q)) \<or> q = length s)"

definition lazy_end :: "pystr \<Rightarrow> nat \<Rightarrow> nat option" where
  "lazy_end s q = first_some (\<lambda>e. if lookahead s e then Some e else None) [q..<Suc (length s)]"

text \<open>\<open>^\s*TITLE\s*$\<close> at start position \<open>i\<close>, followed by the rest of the pattern \<open>rest\<close>,
  which gets the position after \<open>$\<close> and gives the end of the match.\<close>

definition title_line_at :: "pystr \<Rightarrow> pystr \<Rightarrow> (nat \<Rightarrow> nat option) \<Rightarrow> nat \<Rightarrow> nat option" where
  "title_line_at s title rest i =
     (if at_bol s i then
        first_some
          (\<lambda>k. if prefix title (drop (i + k) s) then
                 first_some
                   (\<lambda>j. if at_eol s (i + k + length title + j)
                        then rest (i + k + length title + j) else None)
                   (greedy_counts s (i + k + length title))
               else None)
          (greedy_counts s i)
      else None)"

text \<open>The first match from position \<open>pos\<close> on, as \<open>(start, end)\<close>: start positions are tried
  from the left.\<close>

definition search_from :: "(nat \<Rightarrow> nat option) \<Rightarrow> pystr \<Rightarrow> nat \<Rightarrow> (nat \<times> nat) option" where
  "search_from match_at s pos =
     first_some (\<lambda>i. map_option (Pair i) (match_at i)) [pos..<Suc (length s)]"

text \<open>\<open>find_section(title)\<close>: the start of the first heading line, \<open>None\<close> for \<open>-1\<close>.\<close>

definition find_section :: "pystr \<Rightarrow> pystr \<Rightarrow> nat option" where
  "find_section s title = map_option fst (search_from (title_line_at s title Some) s 0)"

text \<open>The section pattern at a start position, and its first match from \<open>pos\<close> on.\<close>

definition section_at :: "pystr \<Rightarrow> pystr \<Rightarrow> nat \<Rightarrow> nat option" where
  "section_at s title i = title_line_at s title (lazy_end s) i"

definition search_section :: "pystr \<Rightarrow> pystr \<Rightarrow> nat \<Rightarrow> (nat \<times> nat) option" where
  "search_section s title pos = search_from (section_at s title) s pos"

section \<open>PatchEngine: the replacement template of \<open>re.sub\<close>\<close>

text \<open>
  \<open>re.sub(pattern, content + "\n", text)\<close> reads its second argument as a template: a
  backslash starts an escape. \<open>parse_template\<close> models the template parser of CPython's \<open>re\<close>
  for a pattern without groups, as here: the template is cut into tokens (a backslash and
  the code point after it are one token; a backslash at the end raises), and then
  \<^item> \<open>\g<name>\<close> is the whole match when the name is a number that is 0, and raises for
    every other name (CPython 3.12 takes ASCII digits only as a number, which is what is
    modelled; earlier versions also take a sign, spaces and underscores);
  \<^item> \<open>\0\<close> with up to two more octal digits is that code point; \<open>\1\<close> to \<open>\3\<close> followed by two
    octal digits also; every other backslash-digit is a reference to a group that does not
    exist and raises;
  \<^item> \<open>\a \b \f \n \r \t \v \\\<close> are the characters they name;
  \<^item> a backslash before any other ASCII letter raises (bad escape);
  \<^item> a backslash before anything else stays, with that code point.
  \<open>None\<close> stands for the exception (\<open>re.error\<close>, or \<open>IndexError\<close> for an unknown group name).
\<close>

datatype tok = Lit codepoint | Esc codepoint

fun tokenize :: "pystr \<Rightarrow> tok list option" where
  "tokenize [] = Some []"
| "tokenize (c # cs) =
     (if c = 92 then
        (case cs of [] \<Rightarrow> None
                  | d # ds \<Rightarrow> map_option (\<lambda>ts. Esc d # ts) (tokenize ds))
      else map_option (\<lambda>ts. Lit c # ts) (tokenize cs))"

datatype part = PLit codepoint | PGroup0

definition is_octdigit :: "codepoint \<Rightarrow> bool" where
  "is_octdigit c = (48 \<le> c \<and> c \<le> 55)"

definition is_ascii_digit :: "codepoint \<Rightarrow> bool" where
  "is_ascii_digit c = (48 \<le> c \<and> c \<le> 57)"

definition is_ascii_letter :: "codepoint \<Rightarrow> bool" where
  "is_ascii_letter c = ((65 \<le> c \<and> c \<le> 90) \<or> (97 \<le> c \<and> c \<le> 122))"

definition tok_chars :: "tok \<Rightarrow> pystr" where
  "tok_chars t = (case t of Lit c \<Rightarrow> [c] | Esc c \<Rightarrow> [92, c])"

text \<open>The escapes the parser knows, as a table from the letter to the code point.\<close>

definition escapes :: "(codepoint \<times> codepoint) list" where
  "escapes = [(97, 7), (98, 8), (102, 12), (110, 10), (114, 13), (116, 9), (118, 11), (92, 92)]"

text \<open>A group name that is the number 0: ASCII digits, not empty, all of them \<open>0\<close>.\<close>

definition names_group0 :: "pystr \<Rightarrow> bool" where
  "names_group0 name = (name \<noteq> [] \<and> list_all (\<lambda>c. c = 48) name)"

fun parse_tokens :: "tok list \<Rightarrow> part list option"
  and parse_name :: "pystr \<Rightarrow> tok list \<Rightarrow> part list option" where
  "parse_tokens [] = Some []"
| "parse_tokens (Lit c # ts) = map_option (\<lambda>ps. PLit c # ps) (parse_tokens ts)"
| "parse_tokens (Esc c # ts) =
     (if c = 103 then
        (case ts of Lit d # ts' \<Rightarrow> (if d = 60 then parse_name [] ts' else None)
                  | _ \<Rightarrow> None)
      else if c = 48 then
        (case ts of
           Lit d1 # Lit d2 # ts' \<Rightarrow>
             (if is_octdigit d1 \<and> is_octdigit d2
              then map_option (\<lambda>ps. PLit (8 * (d1 - 48) + (d2 - 48)) # ps) (parse_tokens ts')
              else if is_octdigit d1
              then map_option (\<lambda>ps. PLit (d1 - 48) # ps) (parse_tokens (Lit d2 # ts'))
              else map_option (\<lambda>ps. PLit 0 # ps) (parse_tokens (Lit d1 # Lit d2 # ts')))
         | Lit d1 # ts' \<Rightarrow>
             (if is_octdigit d1
              then map_option (\<lambda>ps. PLit (d1 - 48) # ps) (parse_tokens ts')
              else map_option (\<lambda>ps. PLit 0 # ps) (parse_tokens (Lit d1 # ts')))
         | _ \<Rightarrow> map_option (\<lambda>ps. PLit 0 # ps) (parse_tokens ts))
      else if is_ascii_digit c then
        (case ts of
           Lit d1 # Lit d2 # ts' \<Rightarrow>
             (if is_octdigit c \<and> is_octdigit d1 \<and> is_octdigit d2
                 \<and> 64 * (c - 48) + 8 * (d1 - 48) + (d2 - 48) \<le> 255
              then map_option (\<lambda>ps. PLit (64 * (c - 48) + 8 * (d1 - 48) + (d2 - 48)) # ps)
                     (parse_tokens ts')
              else None)
         | _ \<Rightarrow> None)
      else (case map_of escapes c of
              Some e \<Rightarrow> map_option (\<lambda>ps. PLit e # ps) (parse_tokens ts)
            | None \<Rightarrow>
                if is_ascii_letter c then None
                else map_option (\<lambda>ps. PLit 92 # PLit c # ps) (parse_tokens ts)))"
| "parse_name name [] = None"
| "parse_name name (t # ts) =
     (if t = Lit 62
      then (if names_group0 name then map_option (\<lambda>ps. PGroup0 # ps) (parse_tokens ts)
            else None)
      else parse_name (name @ tok_chars t) ts)"

definition parse_template :: "pystr \<Rightarrow> part list option" where
  "parse_template tmpl = (case tokenize tmpl of None \<Rightarrow> None | Some ts \<Rightarrow> parse_tokens ts)"

text \<open>The text a parsed template stands for at a match \<open>m\<close>.\<close>

definition expand_template :: "part list \<Rightarrow> pystr \<Rightarrow> pystr" where
  "expand_template ps m = concat (map (\<lambda>p. case p of PLit c \<Rightarrow> [c] | PGroup0 \<Rightarrow> m) ps)"

section \<open>PatchEngine: \<open>apply_validator_patches\<close>\<close>

text \<open>
  \<open>re.sub(section pattern, template, s)\<close> from position \<open>pos\<close> on, with the template parsed:
  the text before the next match, the template's text at that match, and on from the end of
  the match. A match of the pattern with a non-empty title is not empty and lies inside the
  text (\<open>search_section_bounds\<close> below), so the last branch is never taken with such a title,
  the only kind the caller passes.
\<close>

function re_sub_from :: "pystr \<Rightarrow> pystr \<Rightarrow> part list \<Rightarrow> nat \<Rightarrow> pystr" where
  "re_sub_from s title ps pos =
     (case search_section s title pos of
        None \<Rightarrow> drop pos s
      | Some (a, b) \<Rightarrow>
          if pos < b \<and> b \<le> length s
          then take (a - pos) (drop pos s) @ expand_template ps (take (b - a) (drop a s))
               @ re_sub_from s title ps b
          else drop pos s)"
  by pat_completeness auto
termination
  by (relation "measure (\<lambda>(s, title, ps, pos). length s - pos)") auto

declare re_sub_from.simps [simp del]

text \<open>The template is parsed before the search starts, so a bad template raises whether
  or not the pattern matches.\<close>

definition re_sub_section :: "pystr \<Rightarrow> pystr \<Rightarrow> pystr \<Rightarrow> py_error + pystr" where
  "re_sub_section title tmpl s =
     (case parse_template tmpl of
        None \<Rightarrow> Inl ReError
      | Some ps \<Rightarrow> Inr (re_sub_from s title ps 0))"

text \<open>\<open>text.rstrip() + f"\n\n{content}\n"\<close>.\<close>

definition append_section :: "pystr \<Rightarrow> pystr \<Rightarrow> pystr" where
  "append_section s content = rstrip s @ [10, 10] @ content @ [10]"

text \<open>One inline fix: the body of the first loop.\<close>

definition apply_inline_fix :: "pystr \<Rightarrow> json \<Rightarrow> py_error + pystr" where
  "apply_inline_fix s fx =
     (case get_stripped fx (ustr ''find'') [] of
        Inl e \<Rightarrow> Inl e
      | Inr find_s \<Rightarrow>
          (case get_stripped fx (ustr ''replace'') [] of
             Inl e \<Rightarrow> Inl e
           | Inr repl \<Rightarrow>
               Inr (if find_s \<noteq> [] \<and> repl \<noteq> [] \<and> is_substr find_s s
                    then py_replace find_s repl s else s)))"

fun apply_inline_fixes :: "pystr \<Rightarrow> json list \<Rightarrow> py_error + pystr" where
  "apply_inline_fixes s [] = Inr s"
| "apply_inline_fixes s (fx # fxs) =
     (case apply_inline_fix s fx of Inl e \<Rightarrow> Inl e | Inr s' \<Rightarrow> apply_inline_fixes s' fxs)"

text \<open>One section patch: the body of the second loop. \<open>lower\<close> is \<open>str.lower\<close>.\<close>

definition apply_section_patch :: "(pystr \<Rightarrow> pystr) \<Rightarrow> pystr \<Rightarrow> json \<Rightarrow> py_error + pystr" where
  "apply_section_patch lower s p =
     (case get_stripped p (ustr ''title'') [] of
        Inl e \<Rightarrow> Inl e
      | Inr title \<Rightarrow>
     (case get_stripped p (ustr ''action'') (ustr ''append'') of
        Inl e \<Rightarrow> Inl e
      | Inr action0 \<Rightarrow>
     (case get_stripped p (ustr ''content'') [] of
        Inl e \<Rightarrow> Inl e
      | Inr content \<Rightarrow>
          (let action = lower action0 in
           if title = [] \<or> content = [] then Inr s
           else (let idx = find_section s title in
             if action = ustr ''insert'' then
               (if idx = None then Inr (append_section s content)
                else re_sub_section title (content @ [10]) s)
             else if action = ustr ''replace'' then
               (if idx = None then Inr (append_section s content)
                else re_sub_section title (content @ [10]) s)
             else
               (if idx = None then Inr (append_section s content)
                else (case search_section s title 0 of
                        Some (a, b) \<Rightarrow>
                          (let existing = rstrip (take (b - a) (drop a s)) @ [10]
                           in Inr (take a s @ existing @ [10] @ strip content @ [10]
                                   @ drop b s))
                      | None \<Rightarrow> Inr (append_section s content))))))))"

fun apply_section_patches :: "(pystr \<Rightarrow> pystr) \<Rightarrow> pystr \<Rightarrow> json list \<Rightarrow> py_error + pystr" where
  "apply_section_patches lower s [] = Inr s"
| "apply_section_patches lower s (p # ps) =
     (case apply_section_patch lower s p of
        Inl e \<Rightarrow> Inl e
      | Inr s' \<Rightarrow> apply_section_patches lower s' ps)"

definition apply_validator_patches :: "(pystr \<Rightarrow> pystr) \<Rightarrow> pystr \<Rightarrow> pydict \<Rightarrow> py_error + pystr" where
  "apply_validator_patches lower current_text report =
     (case py_iter (dict_get_default report (ustr ''inline_fixes'') (JArr [])) of
        Inl e \<Rightarrow> Inl e
      | Inr inline_fixes \<Rightarrow>
     (case apply_inline_fixes current_text inline_fixes of
        Inl e \<Rightarrow> Inl e
      | Inr s \<Rightarrow>
          (let patches = dict_get_default report (ustr ''section_patches'') (JArr []) in
           if py_truthy patches then
             (case py_iter patches of
                Inl e \<Rightarrow> Inl e
              | Inr ps \<Rightarrow> apply_section_patches lower s ps)
           else Inr s)))"

text \<open>A report with one section patch, as the statements below use it.\<close>

definition section_patch :: "pystr \<Rightarrow> pystr \<Rightarrow> pystr \<Rightarrow> json" where
  "section_patch title action content =
     JObj [(ustr ''title'', JStr title), (ustr ''action'', JStr action),
           (ustr ''content'', JStr content)]"

definition report_of_patch :: "json \<Rightarrow> pydict" where
  "report_of_patch p = [(ustr ''section_patches'', JArr [p])]"

text \<open>A report with inline fixes only, each given by its \<open>find\<close> and its \<open>replace\<close> string.\<close>

definition inline_fix :: "pystr \<times> pystr \<Rightarrow> json" where
  "inline_fix fr = JObj [(ustr ''find'', JStr (fst fr)), (ustr ''replace'', JStr (snd fr))]"

definition report_of_fixes :: "(pystr \<times> pystr) list \<Rightarrow> pydict" where
  "report_of_fixes frs = [(ustr ''inline_fixes'', JArr (map inline_fix frs))]"

section \<open>ResponseParser: \<open>json_parser\<close>\<close>

text \<open>\<open>s.strip(c)\<close> for a one-character string \<open>c\<close>.\<close>

definition strip_char :: "codepoint \<Rightarrow> pystr \<Rightarrow> pystr" where
  "strip_char c s = rev (dropWhile (\<lambda>x. x = c) (rev (dropWhile (\<lambda>x. x = c) s)))"

text \<open>
  \<open>_to_float(val, default)\<close>. \<open>py_float\<close> is \<open>float\<close> on a string, a parameter as above, here
  with a real number for the value it reads. A boolean is an
  \<open>int\<close> in Python; \<open>float\<close> of an integer raises \<open>OverflowError\<close> from \<open>2^1024 - 2^970\<close> on, which
  \<open>except Exception\<close> turns into the default.
\<close>

definition to_float :: "(pystr \<Rightarrow> real option) \<Rightarrow> json \<Rightarrow> real \<Rightarrow> real" where
  "to_float py_float val dflt =
     (case val of
        JBool b \<Rightarrow> (if b then 1 else 0)
      | JInt i \<Rightarrow> (if \<bar>i\<bar> < 2 ^ 1024 - 2 ^ 970 then real_of_int i else dflt)
      | JFloat r \<Rightarrow> r
      | JStr s \<Rightarrow> (case py_float (strip_char 39 (strip_char 34 (strip s))) of
                     Some r \<Rightarrow> r | None \<Rightarrow> dflt)
      | _ \<Rightarrow> dflt)"

definition number_fields :: "pystr list" where
  "number_fields = [ustr ''score'', ustr ''structure'', ustr ''content'', ustr ''language'',
                    ustr ''formatting'']"

text \<open>
  \<open>_coerce_numbers(d)\<close>: \<open>if k in d: d[k] = _to_float(d[k], 0.0)\<close> for the five names. On a dict
  it rewrites the values of those keys. \<open>json.loads\<close> can return something else: on a list
  or a string \<open>k in d\<close> is a membership or substring test and \<open>d[k]\<close> raises \<open>TypeError\<close> when
  it holds; on \<open>None\<close>, a boolean or a number \<open>k in d\<close> itself raises \<open>TypeError\<close>.
\<close>

definition coerce_numbers :: "(pystr \<Rightarrow> real option) \<Rightarrow> json \<Rightarrow> py_error + json" where
  "coerce_numbers py_float d =
     (case d of
        JObj kvs \<Rightarrow>
          Inr (JObj (map (\<lambda>kv. if fst kv \<in> set number_fields
                                 then (fst kv, JFloat (to_float py_float (snd kv) 0))
                                 else kv) kvs))
      | JArr xs \<Rightarrow> (if list_ex (\<lambda>k. JStr k \<in> set xs) number_fields
                     then Inl TypeError else Inr d)
      | JStr s \<Rightarrow> (if list_ex (\<lambda>k. is_substr k s) number_fields
                    then Inl TypeError else Inr d)
      | _ \<Rightarrow> Inl TypeError)"

text \<open>\<open>data.setdefault(key, [])\<close>; only a dict has the method.\<close>

definition setdefault_list :: "pystr \<Rightarrow> json \<Rightarrow> py_error + json" where
  "setdefault_list key d =
     (case d of
        JObj kvs \<Rightarrow> Inr (JObj (if map_of kvs key = None then kvs @ [(key, JArr [])] else kvs))
      | _ \<Rightarrow> Inl AttributeError)"

text \<open>
  \<open>_extract_json_block\<close>. First the scan from the first \<open>{\<close> (code point 123) for the \<open>}\<close>
  (125) that brings the depth back to 0: \<open>scan_block depth s\<close> is the number of code points
  up to and including that brace.
\<close>

fun scan_block :: "int \<Rightarrow> pystr \<Rightarrow> nat option" where
  "scan_block depth [] = None"
| "scan_block depth (c # cs) =
     (if c = 123 then map_option Suc (scan_block (depth + 1) cs)
      else if c = 125 then
        (if depth - 1 = 0 then Some 1 else map_option Suc (scan_block (depth - 1) cs))
      else map_option Suc (scan_block depth cs))"

text \<open>
  \<open>re.sub(r"^```(json)?|```$", "", text, flags=re.MULTILINE)\<close>, from the left: three
  backticks (96) at the start of a line, with \<open>json\<close> after them if it is there, or else
  three backticks at the end of a line, are dropped. \<open>bol\<close> says whether the position is at
  the start of a line of the text.
\<close>

function fence_sub :: "bool \<Rightarrow> pystr \<Rightarrow> pystr" where
  "fence_sub bol s =
     (if s = [] then []
      else if bol \<and> prefix [96, 96, 96] s then
        (if prefix (ustr ''json'') (drop 3 s) then fence_sub False (drop 7 s)
         else fence_sub False (drop 3 s))
      else if prefix [96, 96, 96] s \<and> (drop 3 s = [] \<or> hd (drop 3 s) = 10) then
        fence_sub False (drop 3 s)
      else hd s # fence_sub (hd s = 10) (tl s))"
  by pat_completeness auto
termination
  by (relation "measure (\<lambda>(bol, s). length s)") auto

declare fence_sub.simps [simp del]

text \<open>\<open>re.search(r"\{[\s\S]*\}", code)\<close>: from the first \<open>{\<close> to the last \<open>}\<close> after it.\<close>

definition brace_span :: "pystr \<Rightarrow> pystr option" where
  "brace_span code =
     (let from_open = dropWhile (\<lambda>c. c \<noteq> 123) code;
          to_close = rev (dropWhile (\<lambda>c. c \<noteq> 125) (rev from_open))
      in if from_open \<noteq> [] \<and> to_close \<noteq> [] then Some to_close else None)"

definition extract_json_block :: "pystr \<Rightarrow> pystr" where
  "extract_json_block text0 =
     (let s = strip text0;
          from_open = dropWhile (\<lambda>c. c \<noteq> 123) s
      in case (if from_open = [] then None else scan_block 0 from_open) of
           Some n \<Rightarrow> take n from_open
         | None \<Rightarrow>
             (case brace_span (strip (fence_sub True s)) of
                Some m \<Rightarrow> m
              | None \<Rightarrow> s))"

text \<open>
  The repairs. \<open>\d\<close> on a \<open>str\<close> is any Unicode decimal digit: the blocks of ten digits that
  start at the code points below, and the fifty mathematical digits from 120782 (Unicode
  14.0).
\<close>

definition digit_blocks :: "codepoint list" where
  "digit_blocks =
    [48, 1632, 1776, 1984, 2406, 2534, 2662, 2790, 2918, 3046, 3174, 3302, 3430, 3558, 3664,
     3792, 3872, 4160, 4240, 6112, 6160, 6470, 6608, 6784, 6800, 6992, 7088, 7232, 7248,
     42528, 43216, 43264, 43472, 43504, 43600, 44016, 65296, 66720, 68912, 69734, 69872,
     69942, 70096, 70384, 70736, 70864, 71248, 71360, 71472, 71904, 72016, 72784, 73040,
     73120, 92768, 92864, 93008, 120782, 120792, 120802, 120812, 120822, 123200, 123632,
     125264, 130032]"

definition re_digit :: "codepoint \<Rightarrow> bool" where
  "re_digit c = list_ex (\<lambda>b. b \<le> c \<and> c < b + 10) digit_blocks"

text \<open>\<open>re.sub(r"(\d),(\d)", r"\1.\2", s)\<close>: a comma (44) between two digits becomes a full
  stop (46); the search goes on after the second digit.\<close>

fun decimal_commas :: "pystr \<Rightarrow> pystr" where
  "decimal_commas (a # b # c # rest) =
     (if re_digit a \<and> b = 44 \<and> re_digit c then a # 46 # c # decimal_commas rest
      else a # decimal_commas (b # c # rest))"
| "decimal_commas s = s"

text \<open>
  The pattern \<open>"score"\s*:\s*"([^"]+)"\<close> at the start of \<open>s\<close>: the group and the text after
  the match.
\<close>

definition score_string_at :: "pystr \<Rightarrow> (pystr \<times> pystr) option" where
  "score_string_at s =
     (if prefix (34 # ustr ''score'' @ [34]) s then
        (case dropWhile isspace (drop 7 s) of
           c1 # r1 \<Rightarrow>
             (if c1 = 58 then
                (case dropWhile isspace r1 of
                   c2 # r2 \<Rightarrow>
                     (if c2 = 34 then
                        (let g = takeWhile (\<lambda>c. c \<noteq> 34) r2;
                             r3 = dropWhile (\<lambda>c. c \<noteq> 34) r2
                         in if g \<noteq> [] \<and> r3 \<noteq> [] then Some (g, tl r3) else None)
                      else None)
                 | [] \<Rightarrow> None)
              else None)
         | [] \<Rightarrow> None)
      else None)"

text \<open>
  \<open>re.sub\<close> of that pattern with
  \<open>lambda m: f'"score": "{m.group(1).split(",")[0].strip()}"'\<close>.
\<close>

function score_string_sub :: "pystr \<Rightarrow> pystr" where
  "score_string_sub s =
     (if s = [] then []
      else (case score_string_at s of
              Some (g, rest) \<Rightarrow>
                34 # ustr ''score'' @ [34, 58, 32, 34] @ strip (takeWhile (\<lambda>c. c \<noteq> 44) g) @ [34]
                @ score_string_sub rest
            | None \<Rightarrow> hd s # score_string_sub (tl s)))"
  by pat_completeness auto
termination
proof (relation "measure length")
  show "wf (measure length)" by simp
next
  fix s :: pystr and x g rest
  assume "s \<noteq> []" and m: "score_string_at s = Some x" and x: "(g, rest) = x"
  from m x obtain c1 r1 c2 r2 where
    a: "dropWhile isspace (drop 7 s) = c1 # r1" and b: "dropWhile isspace r1 = c2 # r2"
    and r: "dropWhile (\<lambda>c. c \<noteq> 34) r2 \<noteq> []" "rest = tl (dropWhile (\<lambda>c. c \<noteq> 34) r2)"
    by (auto simp: score_string_at_def Let_def split: if_splits list.splits)
  have "length (c1 # r1) \<le> length (drop 7 s)"
    unfolding a [symmetric] by (rule length_dropWhile_le)
  moreover have "length (c2 # r2) \<le> length r1"
    unfolding b [symmetric] by (rule length_dropWhile_le)
  moreover have "length (dropWhile (\<lambda>c. c \<noteq> 34) r2) \<le> length r2"
    by (rule length_dropWhile_le)
  ultimately have "length rest < length s"
    using r by (cases "dropWhile (\<lambda>c. c \<noteq> 34) r2") auto
  then show "(rest, s) \<in> measure length" by simp
next
  fix s :: pystr
  assume "s \<noteq> []"
  then show "(tl s, s) \<in> measure length" by (cases s) auto
qed

declare score_string_sub.simps [simp del]

definition repair :: "pystr \<Rightarrow> pystr" where
  "repair candidate =
     score_string_sub
       (py_replace (ustr '',,'') (ustr '','')
          (decimal_commas (py_replace [10] [32] candidate)))"

definition msg_parse_error :: pystr where
  "msg_parse_error =
    [1054, 1096, 1080, 1073, 1082, 1072, 32, 1087, 1072, 1088, 1089, 1080, 1085, 1075,
     1072, 32, 1086, 1090, 1074, 1077, 1090, 1072, 32, 1074, 1072, 1083, 1080, 1076,
     1072, 1090, 1086, 1088, 1072]"

definition hint_parse_error :: pystr where
  "hint_parse_error =
    [1055, 1088, 1086, 1074, 1077, 1088, 1100, 1090, 1077, 32, 1082, 1086, 1088, 1088,
     1077, 1082, 1090, 1085, 1086, 1089, 1090, 1100, 32, 1087, 1088, 1086, 1084, 1087,
     1090, 1072]"

text \<open>The dict the parser falls back on when both parses fail.\<close>

definition default_data :: json where
  "default_data =
     JObj [(ustr ''score'', JFloat 5.0), (ustr ''structure'', JFloat 5.0),
           (ustr ''content'', JFloat 5.0), (ustr ''language'', JFloat 5.0),
           (ustr ''issues'', JArr [JStr msg_parse_error]),
           (ustr ''suggestions'', JArr [JStr hint_parse_error])]"

text \<open>
  \<open>parse_validation_response\<close>, in two parts. \<open>json_loads\<close> is \<open>json.loads\<close>, a parameter of
  the model: \<open>None\<close> where it raises. \<open>load_data\<close> is the first part, up to the end of the
  nested \<open>try\<close>: the cleaning, the extraction, the strict parse, the parse of the repaired
  candidate, the default.
\<close>

definition load_data :: "(pystr \<Rightarrow> json option) \<Rightarrow> pystr \<Rightarrow> json" where
  "load_data json_loads content =
     (let clean = py_replace [9] [32] (py_replace [13] [32] content);
          candidate = extract_json_block clean
      in case json_loads candidate of
           Some d \<Rightarrow> d
         | None \<Rightarrow>
             (case json_loads (repair candidate) of
                Some d \<Rightarrow> d
              | None \<Rightarrow> default_data))"

text \<open>
  The second part: \<open>_coerce_numbers\<close> and the two \<open>setdefault\<close> calls. The schema validation
  between them only logs (its exceptions are caught and \<open>data\<close> is not changed), so it is not
  a step of the model.
\<close>

definition parse_validation_response ::
  "(pystr \<Rightarrow> json option) \<Rightarrow> (pystr \<Rightarrow> real option) \<Rightarrow> pystr \<Rightarrow> py_error + json" where
  "parse_validation_response json_loads py_float content =
     (case coerce_numbers py_float (load_data json_loads content) of
        Inl e \<Rightarrow> Inl e
      | Inr d1 \<Rightarrow>
          (case setdefault_list (ustr ''issues'') d1 of
             Inl e \<Rightarrow> Inl e
           | Inr d2 \<Rightarrow> setdefault_list (ustr ''suggestions'') d2))"

text \<open>
  The scoring pass of \<open>rlhf_loop\<close>: the service when \<open>use_claude\<close> holds, the fallback otherwise.
\<close>

definition rlhf_scorer ::
  "(pystr \<Rightarrow> pyfloat option) \<Rightarrow> bool \<Rightarrow> bool \<Rightarrow> (nat \<Rightarrow> pystr \<Rightarrow> http_reply) \<Rightarrow> nat \<Rightarrow> pystr
     \<Rightarrow> score_report" where
  "rlhf_scorer py_float api_key use_claude critic k t =
     (if use_claude then validate_and_score py_float api_key (critic k t)
      else fallback_scoring t)"

text \<open>
  The loop invariant of \<open>rlhf_loop\<close>, at the head of the iteration numbered \<open>i\<close>. No pass so
  far reached the target or scored more than \<open>best_score\<close>; \<open>best_text\<close> is a text that scored
  \<open>best_score\<close>, or the initial text with the initial 0.0. There has been one pass for each
  earlier iteration, \<open>i - 1\<close> in all and no more than \<open>max_iterations\<close>; the history has their
  numbers and scores; each score is the scorer's answer for the text of that pass; the
  first text scored is the initial one.
\<close>

definition rlhf_inv ::
  "(nat \<Rightarrow> pystr \<Rightarrow> score_report) \<Rightarrow> pystr \<Rightarrow> pyfloat \<Rightarrow> int \<Rightarrow> int \<Rightarrow> pystr \<Rightarrow> pystr \<Rightarrow> pyfloat
     \<Rightarrow> iteration_data list \<Rightarrow> (pystr \<times> pyfloat) list \<Rightarrow> bool" where
  "rlhf_inv scorer initial target m i x bt bs h tr \<longleftrightarrow>
     (\<forall>p \<in> set tr. \<not> f_gt (snd p) bs \<and> \<not> f_ge (snd p) target)
     \<and> ((bt, bs) \<in> set tr \<or> (bs = Fin 0 \<and> bt = initial))
     \<and> i = int (length tr) + 1 \<and> int (length tr) \<le> max 0 m
     \<and> map it_iteration h = map (\<lambda>k. int k + 1) [0..<length tr]
     \<and> map it_score h = map snd tr
     \<and> (\<forall>k < length tr. snd (tr ! k) = score (scorer k (fst (tr ! k))))
     \<and> (if tr = [] then x = initial else fst (hd tr) = initial)"

text \<open>What the invariant gives for a run that returns \<open>r\<close>.\<close>

definition rlhf_post ::
  "(nat \<Rightarrow> pystr \<Rightarrow> score_report) \<Rightarrow> pystr \<Rightarrow> pyfloat \<Rightarrow> int \<Rightarrow> rlhf_run \<Rightarrow> bool" where
  "rlhf_post scorer initial target m r \<longleftrightarrow>
     (\<forall>p \<in> set (rlhf_passes r). \<not> f_gt (snd p) (rlhf_score r))
     \<and> ((rlhf_text r, rlhf_score r) \<in> set (rlhf_passes r)
        \<or> (rlhf_score r = Fin 0 \<and> rlhf_text r = initial))
     \<and> int (length (rlhf_passes r)) \<le> max 0 m
     \<and> ((\<forall>p \<in> set (rlhf_passes r). \<not> f_ge (snd p) target)
          \<longrightarrow> int (length (rlhf_passes r)) = max 0 m)
     \<and> map it_iteration (rlhf_history r) = map (\<lambda>k. int k + 1) [0..<length (rlhf_passes r)]
     \<and> map it_score (rlhf_history r) = map snd (rlhf_passes r)
     \<and> (\<forall>k < length (rlhf_passes r).
            snd (rlhf_passes r ! k) = score (scorer k (fst (rlhf_passes r ! k))))
     \<and> (rlhf_passes r = [] \<or> fst (hd (rlhf_passes r)) = initial)"

section \<open>Properties of the similarity measure\<close>

lemma word_set_finite: "finite (word_set lower t)"
  by (simp add: word_set_def)

text \<open>
  C10. \<open>calculate_text_similarity\<close> is symmetric, its value lies in [0, 1], it is 1 when both
  word sets are empty, 0 when exactly one of them is empty, and 1 whenever the two texts have
  the same set of lower-cased words (so for two identical texts).
\<close>

theorem calculate_text_similarity_props:
  "calculate_text_similarity lower a b = calculate_text_similarity lower b a
   \<and> 0 \<le> calculate_text_similarity lower a b
   \<and> calculate_text_similarity lower a b \<le> 1
   \<and> (word_set lower a = {} \<and> word_set lower b = {}
        \<longrightarrow> calculate_text_similarity lower a b = 1)
   \<and> ((word_set lower a = {}) \<noteq> (word_set lower b = {})
        \<longrightarrow> calculate_text_similarity lower a b = 0)
   \<and> (word_set lower a = word_set lower b \<longrightarrow> calculate_text_similarity lower a b = 1)
   \<and> calculate_text_similarity lower a a = 1"
proof -
  let ?A = "word_set lower a" and ?B = "word_set lower b"
  have fin: "finite ?A" "finite ?B" by (rule word_set_finite)+
  have sym: "calculate_text_similarity lower a b = calculate_text_similarity lower b a"
    by (auto simp: calculate_text_similarity_def Let_def Int_commute Un_commute)
  have le: "card (?A \<inter> ?B) \<le> card (?A \<union> ?B)"
    using fin by (intro card_mono) auto
  have nonneg: "0 \<le> calculate_text_similarity lower a b"
    by (simp add: calculate_text_similarity_def Let_def)
  have le1: "calculate_text_similarity lower a b \<le> 1"
    using le by (simp add: calculate_text_similarity_def Let_def divide_le_eq_1)
  have both: "?A = {} \<and> ?B = {} \<longrightarrow> calculate_text_similarity lower a b = 1"
    by (simp add: calculate_text_similarity_def Let_def)
  have one: "(?A = {}) \<noteq> (?B = {}) \<longrightarrow> calculate_text_similarity lower a b = 0"
    by (auto simp: calculate_text_similarity_def Let_def)
  have same: "calculate_text_similarity lower x y = 1" if "word_set lower x = word_set lower y"
    for x y
  proof (cases "word_set lower y = {}")
    case True
    with that show ?thesis by (simp add: calculate_text_similarity_def Let_def)
  next
    case False
    then have "card (word_set lower y) > 0"
      using word_set_finite [of lower y] by (simp add: card_gt_0_iff)
    with that False show ?thesis by (simp add: calculate_text_similarity_def Let_def)
  qed
  from sym nonneg le1 both one same [of a b] same [of a a] show ?thesis by blast
qed

theorem calculate_text_similarity_witness:
  "calculate_text_similarity ascii_lower (ustr ''Mars Venus'') (ustr ''venus MARS'') = 1
   \<and> calculate_text_similarity ascii_lower (ustr '' '') (ustr '''') = 1
   \<and> calculate_text_similarity ascii_lower (ustr ''Mars'') (ustr '' '') = 0"
proof -
  have w1: "word_set ascii_lower (ustr ''Mars Venus'') = {ustr ''mars'', ustr ''venus''}"
    by (simp add: word_set_def split_ws_def ascii_lower_def ustr_def isspace_def)
  have w2: "word_set ascii_lower (ustr ''venus MARS'') = {ustr ''venus'', ustr ''mars''}"
    by (simp add: word_set_def split_ws_def ascii_lower_def ustr_def isspace_def)
  have w3: "word_set ascii_lower (ustr '' '') = {}" "word_set ascii_lower (ustr '''') = {}"
    by (simp_all add: word_set_def split_ws_def ascii_lower_def ustr_def isspace_def)
  have w4: "word_set ascii_lower (ustr ''Mars'') = {ustr ''mars''}"
    by (simp add: word_set_def split_ws_def ascii_lower_def ustr_def isspace_def)
  have e: "word_set ascii_lower (ustr ''Mars Venus'') = word_set ascii_lower (ustr ''venus MARS'')"
    unfolding w1 w2 by auto
  have n: "(word_set ascii_lower (ustr ''Mars'') = {}) \<noteq> (word_set ascii_lower (ustr '' '') = {})"
    unfolding w3 w4 by simp
  show ?thesis
    using calculate_text_similarity_props [of ascii_lower "ustr ''Mars Venus''" "ustr ''venus MARS''"]
      calculate_text_similarity_props [of ascii_lower "ustr '' ''" "ustr ''''"]
      calculate_text_similarity_props [of ascii_lower "ustr ''Mars''" "ustr '' ''"]
      e n w3
    by blast
qed

section \<open>Properties of the mode selector\<close>

text \<open>
  C7, as the code has it. \<open>determine_editing_mode\<close> returns \<open>"hard"\<close> exactly when one of these
  holds, and \<open>"soft"\<close> otherwise: the iteration is at least 2 and either \<open>prev_score\<close> is not
  above 0 (the delta is 0.0 then, so the test always fires) or the delta
  \<open>current_score - prev_score\<close>, as Python's float subtraction gives it, is below 0.5; the
  similarity exceeds 0.95 (the double of that literal); the iteration is at least 3 and
  the current score is below 7.0. This holds for every subtraction, so for the rounding one
  of the doubles, and for scores that are infinite or NaN. Similarity 0.97 at iteration 2
  gives \<open>"hard"\<close>.
\<close>

theorem determine_editing_mode_hard_iff:
  "determine_editing_mode fsub iteration current_score prev_score similarity =
     (if (iteration \<ge> 2
          \<and> (\<not> f_gt prev_score (Fin 0) \<or> f_lt (fsub current_score prev_score) (Fin 0.5)))
         \<or> f_gt similarity (Fin double_0_95)
         \<or> (iteration \<ge> 3 \<and> f_lt current_score (Fin 7.0))
      then ''hard'' else ''soft'')
   \<and> determine_editing_mode fsub 2 current_score prev_score (Fin double_0_97) = ''hard''"
  by (auto simp: determine_editing_mode_def Let_def double_0_95_def double_0_97_def)

text \<open>
  Two calls with no positive previous score, so that the subtraction is not reached: at
  iteration 1 the answer is \<open>"soft"\<close>, at iteration 3 it is \<open>"hard"\<close>.
\<close>

theorem determine_editing_mode_witness:
  "\<forall>fsub. determine_editing_mode fsub 1 (Fin 8) (Fin 0) (Fin 0) = ''soft''
          \<and> determine_editing_mode fsub 3 (Fin 9) NaN (Fin 0) = ''hard''"
proof (intro allI)
  fix fsub :: "pyfloat \<Rightarrow> pyfloat \<Rightarrow> pyfloat"
  show "determine_editing_mode fsub 1 (Fin 8) (Fin 0) (Fin 0) = ''soft''
        \<and> determine_editing_mode fsub 3 (Fin 9) NaN (Fin 0) = ''hard''"
    using determine_editing_mode_hard_iff [of fsub 1 "Fin 8" "Fin 0" "Fin 0"]
      determine_editing_mode_hard_iff [of fsub 3 "Fin 9" NaN "Fin 0"]
    by (simp add: double_0_95_def)
qed

text \<open>
  The claim as the specification words it takes the score improvement to be
  \<open>current_score - prev_score\<close> throughout. At iteration 2 with scores 8.0 after 0.0 and
  similarity 0.0 none of its three conditions holds (the difference of these two doubles is
  8.0, with no rounding), and the code answers \<open>"hard"\<close>, whatever the subtraction: it is not
  called.
\<close>

theorem determine_editing_mode_counterexample:
  "\<forall>fsub. determine_editing_mode fsub 2 (Fin 8) (Fin 0) (Fin 0) = ''hard''
          \<and> \<not> (((2::int) \<ge> 2 \<and> f_lt (Fin (8 - 0)) (Fin 0.5))
                 \<or> f_gt (Fin 0) (Fin double_0_95)
                 \<or> ((2::int) \<ge> 3 \<and> f_lt (Fin 8) (Fin 7.0)))"
  by (simp add: determine_editing_mode_def double_0_95_def)

section \<open>Properties of the refinement loops\<close>

text \<open>Python's comparisons of floats: \<open><\<close> is irreflexive and transitive, also with \<open><=\<close>.\<close>

lemma f_lt_irrefl: "\<not> f_lt a a"
  by (cases a) auto

lemma f_lt_trans: "f_lt a b \<Longrightarrow> f_lt b c \<Longrightarrow> f_lt a c"
  by (cases a; cases b; cases c) auto

lemma f_le_lt_trans: "f_le a b \<Longrightarrow> f_lt b c \<Longrightarrow> f_le a c"
  by (cases a; cases b; cases c) auto

lemma strip_no_space:
  assumes "s \<noteq> []" "\<not> isspace (hd s)" "\<not> isspace (last s)"
  shows "strip s = s"
proof -
  have l: "dropWhile isspace s = s" using assms by (cases s) auto
  have r: "dropWhile isspace (rev s) = rev s" using assms by (cases s rule: rev_cases) auto
  show ?thesis by (simp add: strip_def lstrip_def rstrip_def l r)
qed

lemma final_check_sel:
  "passes (final_check pf k c i x tr) = tr @ [(x, final_score (final_check pf k c i x tr))]"
  "final_text (final_check pf k c i x tr) = x"
  "iterations (final_check pf k c i x tr) = i"
  "final_score (final_check pf k c i x tr) = score (validate_and_score pf k (c (length tr) x))"
  by (simp_all add: final_check_def Let_def)

text \<open>One round of the \<open>while\<close> loop, by what the score and the candidate are.\<close>

lemma refinement_loop_exit:
  "\<not> i < m \<Longrightarrow> refinement_loop pf k c f t m i x tr = final_check pf k c i x tr"
  by (subst refinement_loop.simps) simp

lemma refinement_loop_continue:
  assumes "i < m"
    and "s = score (validate_and_score pf k (c (length tr) x))"
    and "y = fix_text_with_claude k x (f (length tr) x)"
    and "\<not> f_ge s t" "y \<noteq> []" "length (strip y) > 100"
    and "\<not> real (length y) < real (length x) * 0.7"
  shows "refinement_loop pf k c f t m i x tr =
         refinement_loop pf k c f t m (i + 1) y (tr @ [(x, s)])"
  using assms by (subst refinement_loop.simps) (simp add: Let_def)

lemma refinement_loop_stop:
  assumes "i < m"
    and "s = score (validate_and_score pf k (c (length tr) x))"
    and "y = fix_text_with_claude k x (f (length tr) x)"
    and "\<not> (\<not> f_ge s t \<and> y \<noteq> [] \<and> length (strip y) > 100
            \<and> \<not> real (length y) < real (length x) * 0.7)"
  shows "refinement_loop pf k c f t m i x tr =
         (if f_ge s t
          then \<lparr>final_text = x, final_score = s, passes = tr @ [(x, s)], iterations = i + 1\<rparr>
          else final_check pf k c (i + 1) x (tr @ [(x, s)]))"
  using assms by (subst refinement_loop.simps) (auto simp: Let_def)

lemma refinement_loop_passes_bound:
  "int (length (passes (refinement_loop pf k c f t m i x tr)))
     \<le> int (length tr) + max 0 (m - i) + 1"
proof (induction pf k c f t m i x tr rule: refinement_loop.induct)
  case (1 pf k c f t m i x tr)
  show ?case
  proof (cases "i < m")
    case False
    then show ?thesis by (simp add: refinement_loop_exit final_check_sel)
  next
    case True
    define s where "s = score (validate_and_score pf k (c (length tr) x))"
    define y where "y = fix_text_with_claude k x (f (length tr) x)"
    show ?thesis
    proof (cases "\<not> f_ge s t \<and> y \<noteq> [] \<and> length (strip y) > 100
                  \<and> \<not> real (length y) < real (length x) * 0.7")
      case rec: True
      have "int (length (passes (refinement_loop pf k c f t m (i + 1) y (tr @ [(x, s)]))))
            \<le> int (length (tr @ [(x, s)])) + max 0 (m - (i + 1)) + 1"
        using 1 [OF True s_def refl _ y_def] rec by simp
      moreover have "refinement_loop pf k c f t m i x tr =
                     refinement_loop pf k c f t m (i + 1) y (tr @ [(x, s)])"
        using True rec by (intro refinement_loop_continue s_def y_def) simp_all
      ultimately show ?thesis using True by simp
    next
      case False
      have "refinement_loop pf k c f t m i x tr =
              (if f_ge s t
               then \<lparr>final_text = x, final_score = s, passes = tr @ [(x, s)],
                      iterations = i + 1\<rparr>
               else final_check pf k c (i + 1) x (tr @ [(x, s)]))"
        by (rule refinement_loop_stop [where y = y]) (use True False s_def y_def in simp_all)
      with True show ?thesis by (simp add: final_check_sel)
    qed
  qed
qed

lemma refinement_loop_last_pass:
  "passes (refinement_loop pf k c f t m i x tr) \<noteq> []
   \<and> last (passes (refinement_loop pf k c f t m i x tr))
       = (final_text (refinement_loop pf k c f t m i x tr),
          final_score (refinement_loop pf k c f t m i x tr))"
proof (induction pf k c f t m i x tr rule: refinement_loop.induct)
  case (1 pf k c f t m i x tr)
  show ?case
  proof (cases "i < m")
    case False
    then show ?thesis by (simp add: refinement_loop_exit final_check_sel)
  next
    case True
    define s where "s = score (validate_and_score pf k (c (length tr) x))"
    define y where "y = fix_text_with_claude k x (f (length tr) x)"
    show ?thesis
    proof (cases "\<not> f_ge s t \<and> y \<noteq> [] \<and> length (strip y) > 100
                  \<and> \<not> real (length y) < real (length x) * 0.7")
      case rec: True
      have eq: "refinement_loop pf k c f t m i x tr =
                refinement_loop pf k c f t m (i + 1) y (tr @ [(x, s)])"
        using True rec by (intro refinement_loop_continue s_def y_def) simp_all
      show ?thesis unfolding eq
        using 1 [OF True s_def refl _ y_def] rec by simp
    next
      case False
      have "refinement_loop pf k c f t m i x tr =
              (if f_ge s t
               then \<lparr>final_text = x, final_score = s, passes = tr @ [(x, s)],
                      iterations = i + 1\<rparr>
               else final_check pf k c (i + 1) x (tr @ [(x, s)]))"
        by (rule refinement_loop_stop [where y = y]) (use True False s_def y_def in simp_all)
      then show ?thesis by (simp add: final_check_sel)
    qed
  qed
qed

text \<open>
  Every entry of the list of passes is a scoring request that was made: the score at
  position \<open>j\<close> is what \<open>validate_and_score\<close> made of the critic's \<open>j\<close>-th reply, for the text
  at that position; and the first text scored is the one the run was given.
\<close>

lemma scored_snoc:
  assumes "\<forall>j < length tr. snd (tr ! j) = sc j (fst (tr ! j))" and "s = sc (length tr) x"
  shows "\<forall>j < length (tr @ [(x, s)]). snd ((tr @ [(x, s)]) ! j) = sc j (fst ((tr @ [(x, s)]) ! j))"
  using assms by (auto simp: nth_append less_Suc_eq)

lemma first_snoc:
  assumes "if tr = [] then x = t0 else fst (hd tr) = t0"
  shows "fst (hd (tr @ [(x, s)])) = t0"
    and "if tr @ [(x, s)] = [] then y = t0 else fst (hd (tr @ [(x, s)])) = t0"
  using assms by (cases tr; simp)+

lemma refinement_loop_scored:
  assumes "\<forall>j < length tr. snd (tr ! j) = score (validate_and_score pf k (c j (fst (tr ! j))))"
    and "if tr = [] then x = t0 else fst (hd tr) = t0"
  shows "(\<forall>j < length (passes (refinement_loop pf k c f t m i x tr)).
            snd (passes (refinement_loop pf k c f t m i x tr) ! j)
              = score (validate_and_score pf k
                  (c j (fst (passes (refinement_loop pf k c f t m i x tr) ! j)))))
         \<and> fst (hd (passes (refinement_loop pf k c f t m i x tr))) = t0"
  using assms
proof (induction pf k c f t m i x tr rule: refinement_loop.induct)
  case (1 pf k c f t m i x tr)
  define s where "s = score (validate_and_score pf k (c (length tr) x))"
  define y where "y = fix_text_with_claude k x (f (length tr) x)"
  let ?sc = "\<lambda>j u. score (validate_and_score pf k (c j u))"
  have tr': "\<forall>j < length (tr @ [(x, s)]).
               snd ((tr @ [(x, s)]) ! j) = ?sc j (fst ((tr @ [(x, s)]) ! j))"
    by (rule scored_snoc [where sc = ?sc]) (use "1.prems"(1) s_def in simp_all)
  have hd': "fst (hd (tr @ [(x, s)])) = t0"
    by (rule first_snoc(1)) (rule "1.prems"(2))
  have fin: "(\<forall>j < length (passes (final_check pf k c i' z tr0)).
                 snd (passes (final_check pf k c i' z tr0) ! j)
                   = ?sc j (fst (passes (final_check pf k c i' z tr0) ! j)))
             \<and> fst (hd (passes (final_check pf k c i' z tr0))) = t0"
    if "\<forall>j < length tr0. snd (tr0 ! j) = ?sc j (fst (tr0 ! j))"
      and "if tr0 = [] then z = t0 else fst (hd tr0) = t0" for i' z tr0
  proof -
    have p: "passes (final_check pf k c i' z tr0) = tr0 @ [(z, ?sc (length tr0) z)]"
      by (simp add: final_check_def Let_def)
    show ?thesis unfolding p
      using scored_snoc [where sc = ?sc, OF that(1) refl] first_snoc(1) [OF that(2)]
      by blast
  qed
  show ?case
  proof (cases "i < m")
    case False
    then show ?thesis using fin [OF "1.prems"] by (simp add: refinement_loop_exit)
  next
    case True
    show ?thesis
    proof (cases "\<not> f_ge s t \<and> y \<noteq> [] \<and> length (strip y) > 100
                  \<and> \<not> real (length y) < real (length x) * 0.7")
      case rec: True
      have eq: "refinement_loop pf k c f t m i x tr =
                refinement_loop pf k c f t m (i + 1) y (tr @ [(x, s)])"
        using True rec by (intro refinement_loop_continue s_def y_def) simp_all
      have hd2: "if tr @ [(x, s)] = [] then y = t0 else fst (hd (tr @ [(x, s)])) = t0"
        using hd' by simp
      show ?thesis unfolding eq
        using 1(1) [OF True s_def refl _ y_def _ _ tr' hd2] rec by simp
    next
      case False
      have eq: "refinement_loop pf k c f t m i x tr =
              (if f_ge s t
               then \<lparr>final_text = x, final_score = s, passes = tr @ [(x, s)],
                      iterations = i + 1\<rparr>
               else final_check pf k c (i + 1) x (tr @ [(x, s)]))"
        by (rule refinement_loop_stop [where y = y]) (use True False s_def y_def in simp_all)
      have hd2: "if tr @ [(x, s)] = [] then x = t0 else fst (hd (tr @ [(x, s)])) = t0"
        using hd' by simp
      show ?thesis
      proof (cases "f_ge s t")
        case True
        then show ?thesis unfolding eq using tr' hd' by simp
      next
        case False
        then show ?thesis unfolding eq using fin [OF tr' hd2] by simp
      qed
    qed
  qed
qed

text \<open>
  A run that exhausts its budget: no pass in the loop reaches the target and every candidate
  is accepted. It scores the texts \<open>nth_candidate ... 0\<close>, ..., \<open>nth_candidate ... n\<close> in turn, the last one
  after the loop, and returns the last one with its score.
\<close>

lemma refinement_loop_exhaust:
  assumes "\<forall>j < n. \<not> f_ge (score (validate_and_score pf k (c j (nth_candidate k f t0 j)))) t
                    \<and> candidate_accepted (nth_candidate k f t0 j) (nth_candidate k f t0 (Suc j))"
    and "i \<le> n"
  shows "refinement_loop pf k c f t (int n) (int i) (nth_candidate k f t0 i)
           (map (\<lambda>j. (nth_candidate k f t0 j,
                       score (validate_and_score pf k (c j (nth_candidate k f t0 j))))) [0..<i])
         = \<lparr>final_text = nth_candidate k f t0 n,
             final_score = score (validate_and_score pf k (c n (nth_candidate k f t0 n))),
             passes = map (\<lambda>j. (nth_candidate k f t0 j,
                         score (validate_and_score pf k (c j (nth_candidate k f t0 j)))))
                        [0..<Suc n],
             iterations = int n\<rparr>"
  using assms(2)
proof (induction "n - i" arbitrary: i)
  case 0
  then have "i = n" by simp
  then show ?case by (simp add: refinement_loop_exit final_check_def Let_def)
next
  case (Suc d)
  then have lt: "i < n" by simp
  let ?ps = "\<lambda>j. score (validate_and_score pf k (c j (nth_candidate k f t0 j)))"
  let ?tr = "map (\<lambda>j. (nth_candidate k f t0 j, ?ps j)) [0..<i]"
  from assms(1) lt have nr: "\<not> f_ge (?ps i) t"
    and acc: "candidate_accepted (nth_candidate k f t0 i) (nth_candidate k f t0 (Suc i))"
    by blast+
  have step: "refinement_loop pf k c f t (int n) (int i) (nth_candidate k f t0 i) ?tr
              = refinement_loop pf k c f t (int n) (int i + 1) (nth_candidate k f t0 (Suc i))
                  (?tr @ [(nth_candidate k f t0 i, ?ps i)])"
    by (rule refinement_loop_continue)
      (use lt nr acc in \<open>simp_all add: candidate_accepted_def\<close>)
  have "refinement_loop pf k c f t (int n) (int (Suc i)) (nth_candidate k f t0 (Suc i))
          (map (\<lambda>j. (nth_candidate k f t0 j, ?ps j)) [0..<Suc i])
        = \<lparr>final_text = nth_candidate k f t0 n, final_score = ?ps n,
            passes = map (\<lambda>j. (nth_candidate k f t0 j, ?ps j)) [0..<Suc n],
            iterations = int n\<rparr>"
    by (rule Suc.hyps(1)) (use Suc.hyps(2) lt in simp_all)
  then show ?case unfolding step by (simp add: add.commute)
qed

text \<open>
  \<open>rlhf_loop\<close>: the invariant is kept by an iteration that does not reach the target, and
  gives the result at each of the two ways out.
\<close>

lemma rlhf_inv_step:
  assumes inv: "rlhf_inv sc init t m i x bt bs h tr"
    and "i \<le> m" and s: "s = score (sc (length tr) x)" and nr: "\<not> f_ge s t"
  shows "rlhf_inv sc init t m (i + 1) y (if f_gt s bs then x else bt)
           (if f_gt s bs then s else bs)
           (h @ [\<lparr>it_iteration = i, it_score = s, it_issues = a, it_suggestions = b,
                   it_text_length = l\<rparr>])
           (tr @ [(x, s)])"
proof -
  from inv have old: "\<forall>p \<in> set tr. \<not> f_gt (snd p) bs \<and> \<not> f_ge (snd p) t"
    and best: "(bt, bs) \<in> set tr \<or> (bs = Fin 0 \<and> bt = init)"
    and cnt: "i = int (length tr) + 1" "int (length tr) \<le> max 0 m"
    and hist: "map it_iteration h = map (\<lambda>k. int k + 1) [0..<length tr]"
      "map it_score h = map snd tr"
    and sc: "\<forall>k < length tr. snd (tr ! k) = score (sc k (fst (tr ! k)))"
    and first: "if tr = [] then x = init else fst (hd tr) = init"
    by (simp_all add: rlhf_inv_def)
  let ?bs = "if f_gt s bs then s else bs"
  have 1: "\<forall>p \<in> set (tr @ [(x, s)]). \<not> f_gt (snd p) ?bs \<and> \<not> f_ge (snd p) t"
    using old nr by (auto simp: f_lt_irrefl dest: f_lt_trans)
  have 2: "((if f_gt s bs then x else bt), ?bs) \<in> set (tr @ [(x, s)])
           \<or> (?bs = Fin 0 \<and> (if f_gt s bs then x else bt) = init)"
    using best by auto
  have 3: "i + 1 = int (length (tr @ [(x, s)])) + 1" "int (length (tr @ [(x, s)])) \<le> max 0 m"
    using cnt \<open>i \<le> m\<close> by simp_all
  have 4: "map it_iteration (h @ [\<lparr>it_iteration = i, it_score = s, it_issues = a,
              it_suggestions = b, it_text_length = l\<rparr>])
           = map (\<lambda>k. int k + 1) [0..<length (tr @ [(x, s)])]"
    using hist(1) cnt(1) by simp
  have 5: "map it_score (h @ [\<lparr>it_iteration = i, it_score = s, it_issues = a,
              it_suggestions = b, it_text_length = l\<rparr>]) = map snd (tr @ [(x, s)])"
    using hist(2) by simp
  have 6: "\<forall>k < length (tr @ [(x, s)]).
             snd ((tr @ [(x, s)]) ! k) = score (sc k (fst ((tr @ [(x, s)]) ! k)))"
    by (rule scored_snoc [where sc = "\<lambda>k u. score (sc k u)"]) (use sc s in simp_all)
  have 7: "if tr @ [(x, s)] = [] then y = init else fst (hd (tr @ [(x, s)])) = init"
    by (rule first_snoc(2)) (rule first)
  from 1 2 3 4 5 6 7 show ?thesis unfolding rlhf_inv_def by blast
qed

lemma rlhf_inv_exhausted:
  assumes inv: "rlhf_inv sc init t m i x bt bs h tr" and "\<not> i \<le> m"
  shows "rlhf_post sc init t m
           \<lparr>rlhf_text = bt, rlhf_score = bs, rlhf_history = h, rlhf_passes = tr\<rparr>"
proof -
  from inv have cnt: "i = int (length tr) + 1" "int (length tr) \<le> max 0 m"
    by (simp_all add: rlhf_inv_def)
  with \<open>\<not> i \<le> m\<close> have len: "int (length tr) = max 0 m" by simp
  have first: "tr = [] \<or> fst (hd tr) = init"
    using inv by (auto simp: rlhf_inv_def split: if_splits)
  show ?thesis
    using inv len first unfolding rlhf_inv_def rlhf_post_def by simp
qed

lemma rlhf_inv_converged:
  assumes inv: "rlhf_inv sc init t m i x bt bs h tr"
    and "i \<le> m" and s: "s = score (sc (length tr) x)" and conv: "f_ge s t"
  shows "rlhf_post sc init t m
           \<lparr>rlhf_text = x, rlhf_score = s,
            rlhf_history = h @ [\<lparr>it_iteration = i, it_score = s, it_issues = a,
                                 it_suggestions = b, it_text_length = l\<rparr>],
            rlhf_passes = tr @ [(x, s)]\<rparr>"
proof -
  from inv have old: "\<forall>p \<in> set tr. \<not> f_gt (snd p) bs \<and> \<not> f_ge (snd p) t"
    and cnt: "i = int (length tr) + 1" "int (length tr) \<le> max 0 m"
    and hist: "map it_iteration h = map (\<lambda>k. int k + 1) [0..<length tr]"
      "map it_score h = map snd tr"
    and sc: "\<forall>k < length tr. snd (tr ! k) = score (sc k (fst (tr ! k)))"
    and first: "if tr = [] then x = init else fst (hd tr) = init"
    by (simp_all add: rlhf_inv_def)
  have 1: "\<forall>p \<in> set (tr @ [(x, s)]). \<not> f_gt (snd p) s"
    using old conv by (auto simp: f_lt_irrefl dest: f_le_lt_trans)
  have 2: "(x, s) \<in> set (tr @ [(x, s)])"
    by simp
  have 3: "int (length (tr @ [(x, s)])) \<le> max 0 m"
    using cnt \<open>i \<le> m\<close> by simp
  have 4: "\<not> (\<forall>p \<in> set (tr @ [(x, s)]). \<not> f_ge (snd p) t)"
    using conv by simp
  have 5: "map it_iteration (h @ [\<lparr>it_iteration = i, it_score = s, it_issues = a,
              it_suggestions = b, it_text_length = l\<rparr>])
           = map (\<lambda>k. int k + 1) [0..<length (tr @ [(x, s)])]"
    using hist(1) cnt(1) by simp
  have 6: "map it_score (h @ [\<lparr>it_iteration = i, it_score = s, it_issues = a,
              it_suggestions = b, it_text_length = l\<rparr>]) = map snd (tr @ [(x, s)])"
    using hist(2) by simp
  have 7: "\<forall>k < length (tr @ [(x, s)]).
             snd ((tr @ [(x, s)]) ! k) = score (sc k (fst ((tr @ [(x, s)]) ! k)))"
    by (rule scored_snoc [where sc = "\<lambda>k u. score (sc k u)"]) (use sc s in simp_all)
  have 8: "fst (hd (tr @ [(x, s)])) = init"
    by (rule first_snoc(1)) (rule first)
  from 1 2 3 4 5 6 7 8 show ?thesis
    by (simp only: rlhf_post_def rlhf_run.select_convs) blast
qed

text \<open>What a run of \<open>rlhf_loop\<close> that returns gives back, from a state that satisfies the
  invariant.\<close>

lemma rlhf_loop_result:
  assumes "rlhf_inv (rlhf_scorer pf k u c) initial t m i x bt bs h tr"
    and "rlhf_loop pf k u c g t m i x bt bs h tr = Inr r"
  shows "rlhf_post (rlhf_scorer pf k u c) initial t m r"
  using assms
proof (induction pf k u c g t m i x bt bs h tr rule: rlhf_loop.induct)
  case (1 pf k u c g t m i x bt bs h tr)
  show ?case
  proof (cases "i \<le> m")
    case False
    have "rlhf_loop pf k u c g t m i x bt bs h tr =
            Inr \<lparr>rlhf_text = bt, rlhf_score = bs, rlhf_history = h, rlhf_passes = tr\<rparr>"
      using False by (subst rlhf_loop.simps) simp
    with "1.prems" have r: "r = \<lparr>rlhf_text = bt, rlhf_score = bs, rlhf_history = h,
                                   rlhf_passes = tr\<rparr>"
      by simp
    show ?thesis unfolding r by (rule rlhf_inv_exhausted) (use "1.prems"(1) False in simp_all)
  next
    case True
    define v where "v = (if u then validate_and_score pf k (c (length tr) x)
                         else fallback_scoring x)"
    define s where "s = score v"
    define h' where "h' = h @ [\<lparr>it_iteration = i, it_score = s, it_issues = issues v,
                           it_suggestions = suggestions v, it_text_length = length x\<rparr>]"
    define tr' where "tr' = tr @ [(x, s)]"
    define bs' where "bs' = (if f_gt s bs then s else bs)"
    define bt' where "bt' = (if f_gt s bs then x else bt)"
    note defs = v_def s_def h'_def tr'_def bs'_def bt'_def
    have s: "s = score (rlhf_scorer pf k u c (length tr) x)"
      by (simp add: s_def v_def rlhf_scorer_def)
    show ?thesis
    proof (cases "f_ge s t")
      case conv: True
      have "rlhf_loop pf k u c g t m i x bt bs h tr =
              Inr \<lparr>rlhf_text = x, rlhf_score = s, rlhf_history = h', rlhf_passes = tr'\<rparr>"
        using True conv by (subst rlhf_loop.simps) (simp add: Let_def defs)
      with "1.prems" have r: "r = \<lparr>rlhf_text = x, rlhf_score = s, rlhf_history = h',
                                     rlhf_passes = tr'\<rparr>"
        by simp
      show ?thesis unfolding r h'_def tr'_def
        by (rule rlhf_inv_converged) (use "1.prems"(1) True s conv in simp_all)
    next
      case nconv: False
      have inv': "rlhf_inv (rlhf_scorer pf k u c) initial t m (i + 1) y bt' bs' h' tr'" for y
        unfolding bt'_def bs'_def h'_def tr'_def
        by (rule rlhf_inv_step) (use "1.prems"(1) True s nconv in simp_all)
      show ?thesis
      proof (cases "i < m")
        case lt: True
        show ?thesis
        proof (cases "g (length tr) x")
          case (Some y)
          have "rlhf_loop pf k u c g t m i x bt bs h tr =
                rlhf_loop pf k u c g t m (i + 1) y bt' bs' h' tr'"
            using True nconv lt Some by (subst rlhf_loop.simps) (simp add: Let_def defs)
          with "1.prems" have "rlhf_loop pf k u c g t m (i + 1) y bt' bs' h' tr' = Inr r"
            by simp
          from "1.IH"(2) [OF True v_def s_def h'_def tr'_def bs'_def bt'_def nconv lt Some
              inv' this]
          show ?thesis .
        next
          case None
          show ?thesis
          proof (cases u)
            case uT: True
            have "rlhf_loop pf k u c g t m i x bt bs h tr = Inl TypeError"
              using True nconv lt None uT by (subst rlhf_loop.simps) (simp add: Let_def defs)
            with "1.prems" show ?thesis by simp
          next
            case uF: False
            have "rlhf_loop pf k u c g t m i x bt bs h tr =
                  rlhf_loop pf k u c g t m (i + 1) (fallback_fix x (issues v)) bt' bs' h' tr'"
              using True nconv lt None uF by (subst rlhf_loop.simps) (simp add: Let_def defs)
            with "1.prems"
            have "rlhf_loop pf k u c g t m (i + 1) (fallback_fix x (issues v)) bt' bs' h' tr'
                    = Inr r"
              by simp
            from "1.IH"(1) [OF True v_def s_def h'_def tr'_def bs'_def bt'_def nconv lt None
                uF inv' this]
            show ?thesis .
          qed
        qed
      next
        case nlt: False
        have "rlhf_loop pf k u c g t m i x bt bs h tr =
              rlhf_loop pf k u c g t m (i + 1) x bt' bs' h' tr'"
          using True nconv nlt by (subst rlhf_loop.simps) (simp add: Let_def defs)
        with "1.prems" have "rlhf_loop pf k u c g t m (i + 1) x bt' bs' h' tr' = Inr r"
          by simp
        from "1.IH"(3) [OF True v_def s_def h'_def tr'_def bs'_def bt'_def nconv nlt inv' this]
        show ?thesis .
      qed
    qed
  qed
qed

lemma rlhf_inv_initial: "rlhf_inv sc initial t m 1 initial initial (Fin 0) [] []"
  by (simp add: rlhf_inv_def)

lemma strip_replicate: "\<not> isspace a \<Longrightarrow> strip (replicate n a) = replicate n a"
  by (cases n) (simp_all add: strip_def lstrip_def rstrip_def dropWhile_eq_self_iff
      del: replicate.simps)

lemma strip_snoc: "s \<noteq> [] \<Longrightarrow> \<not> isspace (hd s) \<Longrightarrow> \<not> isspace c \<Longrightarrow> strip (s @ [c]) = s @ [c]"
  by (rule strip_no_space) (simp_all add: hd_append)

text \<open>The score \<open>validate_and_score\<close> reads off a one-digit reply.\<close>

lemma score_of_digit:
  "48 \<le> d \<Longrightarrow> d \<le> 57 \<Longrightarrow>
     score (validate_and_score float_of_digit True (Reply200 [d])) = Fin (real (d - 48))"
  by (simp add: validate_and_score_def float_of_digit_def strip_def lstrip_def rstrip_def
      isspace_def py_replace.simps ustr_def)

text \<open>
  C3, as the code has it. \<open>iterative_refinement\<close> keeps no best text. When it exhausts its
  budget of \<open>n\<close> iterations (no pass in the loop reaches the target and every candidate is
  accepted), it has scored the given text and the first \<open>n - 1\<close> candidates in the loop, one
  after the other, then scores the \<open>n\<close>-th candidate once after the loop, and returns that
  last candidate with that last score, whatever the earlier texts scored. In every run the
  pair returned is the last scoring pass made, the first pass is on the text given, and
  each pass is one scoring request, in order. \<open>iterative_improvement\<close> does keep the best:
  when it returns, no pass of the run scored more than the score it returns, and its text
  is a text that was scored exactly that, or the initial text with 0.0 when no pass scored
  more than 0.0. It makes no scoring pass after the loop: the passes are those of the
  iterations 1, 2, ... that the history records, one each, and there are exactly
  \<open>max_iterations\<close> of them when none reached the target. Scores that are NaN or infinite
  are covered: a NaN score never reaches the target and never becomes the best.
\<close>

theorem refinement_returned_text:
  "((\<forall>j < n. \<not> f_ge (score (validate_and_score py_float api_key
                               (critic j (nth_candidate api_key fixer t0 j)))) target_score
              \<and> candidate_accepted (nth_candidate api_key fixer t0 j)
                   (nth_candidate api_key fixer t0 (Suc j)))
     \<longrightarrow> iterative_refinement py_float api_key critic fixer target_score (int n) t0
         = \<lparr>final_text = nth_candidate api_key fixer t0 n,
             final_score = score (validate_and_score py_float api_key
                                    (critic n (nth_candidate api_key fixer t0 n))),
             passes = map (\<lambda>j. (nth_candidate api_key fixer t0 j,
                                 score (validate_and_score py_float api_key
                                          (critic j (nth_candidate api_key fixer t0 j)))))
                        [0..<Suc n],
             iterations = int n\<rparr>)
   \<and> (let run = iterative_refinement py_float api_key critic fixer target_score
                   max_iterations t0
      in passes run \<noteq> []
         \<and> (final_text run, final_score run) = last (passes run)
         \<and> fst (hd (passes run)) = t0
         \<and> (\<forall>j < length (passes run).
               snd (passes run ! j)
                 = score (validate_and_score py_float api_key
                            (critic j (fst (passes run ! j))))))
   \<and> (case iterative_improvement py_float api_key use_claude critic generate max_iterations
              t0 analysis_type of
         Inl e \<Rightarrow> True
       | Inr r \<Rightarrow>
           (\<forall>p \<in> set (rlhf_passes r). \<not> f_gt (snd p) (rlhf_score r))
           \<and> ((rlhf_text r, rlhf_score r) \<in> set (rlhf_passes r)
              \<or> (rlhf_score r = Fin 0 \<and> rlhf_text r = t0))
           \<and> map it_iteration (rlhf_history r)
               = map (\<lambda>j. int j + 1) [0..<length (rlhf_passes r)]
           \<and> map it_score (rlhf_history r) = map snd (rlhf_passes r)
           \<and> ((\<forall>p \<in> set (rlhf_passes r). \<not> f_ge (snd p) (rlhf_target analysis_type))
                \<longrightarrow> int (length (rlhf_passes r)) = max 0 max_iterations)
           \<and> (\<forall>j < length (rlhf_passes r).
                 snd (rlhf_passes r ! j)
                   = score (rlhf_scorer py_float api_key use_claude critic j
                              (fst (rlhf_passes r ! j))))
           \<and> (rlhf_passes r = [] \<or> fst (hd (rlhf_passes r)) = t0))"
proof -
  have a: "iterative_refinement py_float api_key critic fixer target_score (int n) t0
         = \<lparr>final_text = nth_candidate api_key fixer t0 n,
             final_score = score (validate_and_score py_float api_key
                                    (critic n (nth_candidate api_key fixer t0 n))),
             passes = map (\<lambda>j. (nth_candidate api_key fixer t0 j,
                                 score (validate_and_score py_float api_key
                                          (critic j (nth_candidate api_key fixer t0 j)))))
                        [0..<Suc n],
             iterations = int n\<rparr>"
    if "\<forall>j < n. \<not> f_ge (score (validate_and_score py_float api_key
                               (critic j (nth_candidate api_key fixer t0 j)))) target_score
              \<and> candidate_accepted (nth_candidate api_key fixer t0 j)
                   (nth_candidate api_key fixer t0 (Suc j))"
    using refinement_loop_exhaust [where n = n and pf = py_float and k = api_key
        and c = critic and f = fixer and ?t0.0 = t0 and t = target_score and i = 0] that
    by (simp add: iterative_refinement_def)
  have b: "let run = iterative_refinement py_float api_key critic fixer target_score
                   max_iterations t0
      in passes run \<noteq> []
         \<and> (final_text run, final_score run) = last (passes run)
         \<and> fst (hd (passes run)) = t0
         \<and> (\<forall>j < length (passes run).
               snd (passes run ! j)
                 = score (validate_and_score py_float api_key
                            (critic j (fst (passes run ! j)))))"
    using refinement_loop_last_pass [of py_float api_key critic fixer target_score
        max_iterations 0 t0 "[]"]
      refinement_loop_scored [of "[]" py_float api_key critic t0 t0 fixer target_score
        max_iterations 0]
    by (simp add: iterative_refinement_def Let_def)
  have c: "(\<forall>p \<in> set (rlhf_passes r). \<not> f_gt (snd p) (rlhf_score r))
           \<and> ((rlhf_text r, rlhf_score r) \<in> set (rlhf_passes r)
              \<or> (rlhf_score r = Fin 0 \<and> rlhf_text r = t0))
           \<and> map it_iteration (rlhf_history r)
               = map (\<lambda>j. int j + 1) [0..<length (rlhf_passes r)]
           \<and> map it_score (rlhf_history r) = map snd (rlhf_passes r)
           \<and> ((\<forall>p \<in> set (rlhf_passes r). \<not> f_ge (snd p) (rlhf_target analysis_type))
                \<longrightarrow> int (length (rlhf_passes r)) = max 0 max_iterations)
           \<and> (\<forall>j < length (rlhf_passes r).
                 snd (rlhf_passes r ! j)
                   = score (rlhf_scorer py_float api_key use_claude critic j
                              (fst (rlhf_passes r ! j))))
           \<and> (rlhf_passes r = [] \<or> fst (hd (rlhf_passes r)) = t0)"
    if "iterative_improvement py_float api_key use_claude critic generate max_iterations
          t0 analysis_type = Inr r" for r
    using rlhf_loop_result [OF rlhf_inv_initial that [unfolded iterative_improvement_def]]
    unfolding rlhf_post_def by blast
  from a b c show ?thesis by (simp split: sum.split)
qed

text \<open>
  A run of the first loop with a budget of 1: the text given scores 3, the candidate is
  accepted and scores 7 in the pass after the loop; the run returns the candidate with 7.
  A run of the second loop with a budget of 2: the first text scores 8, the regenerated
  one 5; the run returns the first text with 8, after two passes and no third.
\<close>

theorem refinement_returned_text_witness:
  "iterative_refinement float_of_digit True
      (\<lambda>k t. if k = 0 then Reply200 (ustr ''3'') else Reply200 (ustr ''7''))
      (\<lambda>k t. Reply200 (t @ ustr ''!'')) (Fin 10) 1 (replicate 101 97)
     = \<lparr>final_text = replicate 101 97 @ ustr ''!'', final_score = Fin 7,
         passes = [(replicate 101 97, Fin 3), (replicate 101 97 @ ustr ''!'', Fin 7)],
         iterations = 1\<rparr>
   \<and> (case iterative_improvement float_of_digit True True
             (\<lambda>k t. if k = 0 then Reply200 (ustr ''8'') else ReplyFailure)
             (\<lambda>k t. Some (t @ ustr ''!'')) 2 (ustr ''draft'') (ustr ''zodiac'') of
        Inl e \<Rightarrow> False
      | Inr r \<Rightarrow> rlhf_text r = ustr ''draft'' \<and> rlhf_score r = Fin 8
                \<and> rlhf_passes r = [(ustr ''draft'', Fin 8), (ustr ''draft!'', Fin 5)]
                \<and> \<not> f_gt (snd (ustr ''draft!'', Fin 5)) (rlhf_score r)
                \<and> map it_iteration (rlhf_history r) = [1, 2]
                \<and> int (length (rlhf_passes r)) = max 0 2)"
proof -
  let ?critic = "\<lambda>(k::nat) (t::pystr). if k = 0 then Reply200 (ustr ''3'') else Reply200 (ustr ''7'')"
  let ?fixer = "\<lambda>(k::nat) (t::pystr). Reply200 (t @ ustr ''!'')"
  have s1: "strip (replicate 101 97 @ [33]) = replicate 101 97 @ [33]"
    by (rule strip_snoc) (simp_all add: isspace_def)
  have c1: "nth_candidate True ?fixer (replicate 101 97) (Suc 0) = replicate 101 97 @ [33]"
    by (simp add: fix_text_with_claude_def ustr_def s1)
  have sc0: "score (validate_and_score float_of_digit True (Reply200 (ustr ''3''))) = Fin 3"
    by (simp add: score_of_digit ustr_def)
  have sc1: "score (validate_and_score float_of_digit True (Reply200 (ustr ''7''))) = Fin 7"
    by (simp add: score_of_digit ustr_def)
  have fx: "fix_text_with_claude True (replicate 101 97)
              (Reply200 (replicate 101 97 @ ustr ''!'')) = replicate 101 97 @ [33]"
    by (simp add: fix_text_with_claude_def ustr_def s1)
  have acc: "candidate_accepted (replicate 101 97) (replicate 101 97 @ [33])"
    by (simp add: candidate_accepted_def s1)
  have hyp: "\<forall>j < 1. \<not> f_ge (score (validate_and_score float_of_digit True
                               (?critic j (nth_candidate True ?fixer (replicate 101 97) j))))
                          (Fin 10)
              \<and> candidate_accepted (nth_candidate True ?fixer (replicate 101 97) j)
                   (nth_candidate True ?fixer (replicate 101 97) (Suc j))"
    by (simp add: sc0 fx acc)
  have first: "iterative_refinement float_of_digit True ?critic ?fixer (Fin 10) 1
                 (replicate 101 97)
     = \<lparr>final_text = replicate 101 97 @ ustr ''!'', final_score = Fin 7,
         passes = [(replicate 101 97, Fin 3), (replicate 101 97 @ ustr ''!'', Fin 7)],
         iterations = 1\<rparr>"
    using refinement_returned_text [where n = 1 and py_float = float_of_digit
        and api_key = True and critic = ?critic and fixer = ?fixer
        and target_score = "Fin 10" and ?t0.0 = "replicate 101 97"] hyp
    by (simp add: sc0 sc1 fx upt_rec) (simp add: ustr_def)
  have s3: "strip [56] = [56]"
    by (simp add: strip_def lstrip_def rstrip_def isspace_def)
  have r: "py_replace [44] [46] [56] = [56]"
    by (simp add: py_replace.simps)
  have second: "(case iterative_improvement float_of_digit True True
             (\<lambda>k t. if k = 0 then Reply200 (ustr ''8'') else ReplyFailure)
             (\<lambda>k t. Some (t @ ustr ''!'')) 2 (ustr ''draft'') (ustr ''zodiac'') of
        Inl e \<Rightarrow> False
      | Inr r \<Rightarrow> rlhf_text r = ustr ''draft'' \<and> rlhf_score r = Fin 8
                \<and> rlhf_passes r = [(ustr ''draft'', Fin 8), (ustr ''draft!'', Fin 5)]
                \<and> \<not> f_gt (snd (ustr ''draft!'', Fin 5)) (rlhf_score r)
                \<and> map it_iteration (rlhf_history r) = [1, 2]
                \<and> int (length (rlhf_passes r)) = max 0 2)"
    using refinement_returned_text [where py_float = float_of_digit and api_key = True
        and critic = "\<lambda>k t. if k = 0 then Reply200 (ustr ''8'') else ReplyFailure"
        and fixer = "\<lambda>k t. ReplyFailure" and target_score = "Fin 10" and max_iterations = 2
        and ?t0.0 = "ustr ''draft''" and use_claude = True
        and generate = "\<lambda>k t. Some (t @ ustr ''!'')" and analysis_type = "ustr ''zodiac''"
        and n = 0]
    by (simp add: iterative_improvement_def rlhf_loop.simps validate_and_score_def Let_def
        rlhf_target_def s3 r float_of_digit_def ustr_def)
  from first second show ?thesis by (rule conjI)
qed

text \<open>
  The claim as the specification words it fails for \<open>iterative_refinement\<close>: with a budget of 2
  the run below scores the original text 8 and the two candidates 5, and returns the last
  candidate with 5, not the text that scored 8.
\<close>

theorem refinement_returned_text_counterexample:
  "(let run = iterative_refinement float_of_digit True
                (\<lambda>k t. if k = 0 then Reply200 (ustr ''8'') else ReplyFailure)
                (\<lambda>k t. Reply200 (t @ ustr ''!'')) (Fin 10) 2 (replicate 101 97)
    in final_text run = replicate 101 97 @ ustr ''!!'' \<and> final_score run = Fin 5
       \<and> passes run = [(replicate 101 97, Fin 8), (replicate 101 97 @ ustr ''!'', Fin 5),
                        (replicate 101 97 @ ustr ''!!'', Fin 5)])"
proof -
  have s1: "strip (replicate 101 97 @ [33]) = replicate 101 97 @ [33]"
    by (rule strip_snoc) (simp_all add: isspace_def)
  have s2: "strip (replicate 101 97 @ [33, 33]) = replicate 101 97 @ [33, 33]"
    using strip_snoc [of "replicate 101 97 @ [33]" 33] by (simp add: isspace_def hd_append)
  have s3: "strip [56] = [56]"
    by (simp add: strip_def lstrip_def rstrip_def isspace_def)
  have r: "py_replace [44] [46] [56] = [56]"
    by (simp add: py_replace.simps)
  show ?thesis
    by (simp add: iterative_refinement_def refinement_loop.simps validate_and_score_def
        fix_text_with_claude_def final_check_def Let_def s1 s2 s3 r float_of_digit_def ustr_def)
qed

text \<open>
  C4, as the code has it. \<open>refinement_loop\<close> and \<open>rlhf_loop\<close> are total functions (their
  recursion is on the loop counter, which only grows towards \<open>max_iterations\<close>), so every run
  ends, whatever the services reply. A run of \<open>iterative_refinement\<close> makes at most
  \<open>max_iterations\<close> scoring passes inside the loop and one more after it: at most
  \<open>max_iterations + 1\<close>. A run of \<open>iterative_improvement\<close> that returns makes at most
  \<open>max_iterations\<close>.
\<close>

theorem refinement_scoring_passes_bound:
  "int (length (passes (iterative_refinement py_float api_key critic fixer target_score
                          max_iterations t0))) \<le> max 0 max_iterations + 1
   \<and> (case iterative_improvement py_float api_key use_claude critic generate max_iterations
              t0 analysis_type of
         Inl e \<Rightarrow> True
       | Inr r \<Rightarrow> int (length (rlhf_passes r)) \<le> max 0 max_iterations)"
proof -
  have "int (length (passes (iterative_refinement py_float api_key critic fixer target_score
                          max_iterations t0))) \<le> max 0 max_iterations + 1"
    using refinement_loop_passes_bound [of py_float api_key critic fixer target_score
        max_iterations 0 t0 "[]"]
    by (simp add: iterative_refinement_def)
  moreover have "int (length (rlhf_passes r)) \<le> max 0 max_iterations"
    if "iterative_improvement py_float api_key use_claude critic generate max_iterations
          t0 analysis_type = Inr r" for r
    using rlhf_loop_result [OF rlhf_inv_initial that [unfolded iterative_improvement_def]]
    by (simp add: rlhf_post_def)
  ultimately show ?thesis by (simp split: sum.split)
qed

text \<open>
  With \<open>max_iterations = 1\<close> and a critic that is unreachable (score 5.0 each time), the run
  makes two scoring passes: one in the loop, one after it.
\<close>

theorem refinement_scoring_passes_counterexample:
  "\<not> int (length (passes (iterative_refinement (\<lambda>s. None) True (\<lambda>k t. ReplyFailure)
        (\<lambda>k t. ReplyFailure) (Fin 10) 1 (ustr ''draft'')))) \<le> 1"
  by (simp add: iterative_refinement_def refinement_loop.simps validate_and_score_def
      fix_text_with_claude_def final_check_def Let_def ustr_def strip_def lstrip_def
      rstrip_def isspace_def)

text \<open>
  C5, as the code has it. If in an iteration the score does not reach the target (it is
  below it, or NaN) and the fixer's candidate is shorter than 0.7 times the current text,
  the candidate is rejected and the loop is left (\<open>break\<close>): the run ends with the final
  scoring pass of the unchanged text, which it returns; no further iteration runs.
\<close>

theorem shorter_candidate_ends_loop:
  assumes "iteration < max_iterations"
    and "s = score (validate_and_score py_float api_key (critic (length trace) current_text))"
    and "\<not> f_ge s target_score"
    and "improved_text = fix_text_with_claude api_key current_text
                           (fixer (length trace) current_text)"
    and "real (length improved_text) < real (length current_text) * 0.7"
  shows "refinement_loop py_float api_key critic fixer target_score max_iterations
           iteration current_text trace
         = final_check py_float api_key critic (iteration + 1) current_text
             (trace @ [(current_text, s)])
       \<and> final_text (refinement_loop py_float api_key critic fixer target_score max_iterations
           iteration current_text trace) = current_text
       \<and> iterations (refinement_loop py_float api_key critic fixer target_score max_iterations
           iteration current_text trace) = iteration + 1
       \<and> length (passes (refinement_loop py_float api_key critic fixer target_score
           max_iterations iteration current_text trace)) = length trace + 2"
proof -
  have "refinement_loop py_float api_key critic fixer target_score max_iterations
           iteration current_text trace
        = (if f_ge s target_score
           then \<lparr>final_text = current_text, final_score = s,
                  passes = trace @ [(current_text, s)], iterations = iteration + 1\<rparr>
           else final_check py_float api_key critic (iteration + 1) current_text
                  (trace @ [(current_text, s)]))"
    by (rule refinement_loop_stop [where y = improved_text]) (use assms in simp_all)
  with assms(3) show ?thesis by (simp add: final_check_sel)
qed

theorem shorter_candidate_witness:
  "refinement_loop float_of_digit True (\<lambda>k t. ReplyFailure) (\<lambda>k t. Reply200 (replicate 120 97))
      (Fin 10) 7 0 (replicate 200 97) []
   = final_check float_of_digit True (\<lambda>k t. ReplyFailure) 1 (replicate 200 97)
       [(replicate 200 97, Fin 5)]
   \<and> real (length (fix_text_with_claude True (replicate 200 97) (Reply200 (replicate 120 97))))
       < real (length (replicate 200 (97::nat))) * 0.7"
proof -
  have st: "strip (replicate 120 97) = replicate 120 97"
    by (rule strip_replicate) (simp add: isspace_def)
  have sc: "score (validate_and_score float_of_digit True ReplyFailure) = Fin 5"
    by (simp add: validate_and_score_def)
  have fx: "fix_text_with_claude True (replicate 200 97) (Reply200 (replicate 120 97))
            = replicate 120 97"
    by (simp add: fix_text_with_claude_def st)
  have sh: "real (length (replicate 120 (97::nat))) < real (length (replicate 200 (97::nat))) * 0.7"
    by simp
  show ?thesis
    using shorter_candidate_ends_loop [of 0 7 "Fin 5" float_of_digit True "\<lambda>k t. ReplyFailure"
        "[]" "replicate 200 97" "Fin 10" "replicate 120 97"
        "\<lambda>k t. Reply200 (replicate 120 97)"]
    by (simp add: sc fx)
qed

text \<open>
  The claim as the specification words it has the loop go on to the next iteration. With a
  budget of 7, a text of 200 code points and a fixer that answers with 120, the run leaves
  the loop in iteration 1 and makes two scoring passes in all, below the target.
\<close>

theorem shorter_candidate_counterexample:
  "(let run = iterative_refinement float_of_digit True (\<lambda>k t. ReplyFailure)
                (\<lambda>k t. Reply200 (replicate 120 97)) (Fin 10) 7 (replicate 200 97)
    in iterations run = 1 \<and> (1::int) < 7 \<and> length (passes run) = 2
       \<and> f_lt (final_score run) (Fin 10))"
proof -
  have st: "strip (replicate 120 97) = replicate 120 97"
    by (rule strip_replicate) (simp add: isspace_def)
  show ?thesis
    by (simp add: iterative_refinement_def refinement_loop.simps validate_and_score_def
        fix_text_with_claude_def final_check_def Let_def st)
qed

section \<open>Properties of the patch engine\<close>

text \<open>Unfolding rules for evaluating the patch engine and its two patterns on a given
  text.\<close>

lemmas patch_eval =
  apply_validator_patches_def report_of_patch_def section_patch_def report_of_fixes_def
  inline_fix_def dict_get_default_def dict_get_def get_stripped_def apply_section_patch_def
  apply_inline_fix_def ustr_def strip_def lstrip_def rstrip_def isspace_def ascii_lower_def
  append_section_def Let_def

lemmas regex_eval =
  find_section_def search_section_def section_at_def search_from_def title_line_at_def
  lazy_end_def lookahead_def at_bol_def at_eol_def greedy_counts_def ws_run_def isspace_def
  upt_rec

lemma first_some_Some:
  "first_some f xs = Some y \<Longrightarrow> \<exists>x \<in> set xs. f x = Some y"
  by (induction xs) (auto split: option.splits)

lemma first_some_None_iff:
  "first_some f xs = None \<longleftrightarrow> (\<forall>x \<in> set xs. f x = None)"
  by (induction xs) (auto split: option.splits)

lemma lazy_end_bounds: "lazy_end s q = Some e \<Longrightarrow> q \<le> e \<and> e \<le> length s"
  by (auto simp: lazy_end_def dest!: first_some_Some split: if_splits)

lemma title_line_at_Some:
  assumes "title_line_at s title rest i = Some b"
  shows "\<exists>q. i + length title \<le> q \<and> rest q = Some b"
proof -
  from assms obtain k where k: "first_some
                   (\<lambda>j. if at_eol s (i + k + length title + j)
                        then rest (i + k + length title + j) else None)
                   (greedy_counts s (i + k + length title)) = Some b"
    by (auto simp: title_line_at_def dest!: first_some_Some split: if_splits)
  then obtain j where "rest (i + k + length title + j) = Some b"
    by (auto dest!: first_some_Some split: if_splits)
  then show ?thesis by (intro exI [of _ "i + k + length title + j"]) simp
qed

lemma search_section_bounds:
  assumes "title \<noteq> []" and "search_section s title pos = Some (a, b)"
  shows "pos \<le> a \<and> a < b \<and> b \<le> length s"
proof -
  from assms(2) have a: "pos \<le> a" and m: "section_at s title a = Some b"
    by (auto simp: search_section_def search_from_def dest!: first_some_Some)
  from m obtain q where "a + length title \<le> q" "lazy_end s q = Some b"
    unfolding section_at_def by (blast dest: title_line_at_Some)
  with lazy_end_bounds [of s q b] assms(1) a show ?thesis
    by (cases title) auto
qed

lemma tokenize_no_backslash: "92 \<notin> set tmpl \<Longrightarrow> tokenize tmpl = Some (map Lit tmpl)"
  by (induction tmpl) auto

lemma parse_tokens_Lit: "parse_tokens (map Lit xs) = Some (map PLit xs)"
  by (induction xs) auto

lemma parse_template_no_backslash:
  "92 \<notin> set tmpl \<Longrightarrow> parse_template tmpl = Some (map PLit tmpl)"
  by (simp add: parse_template_def tokenize_no_backslash parse_tokens_Lit)

lemma expand_template_PLit: "expand_template (map PLit xs) m = xs"
  by (induction xs) (auto simp: expand_template_def)


lemma rstrip_nonspace_end:
  assumes "b \<noteq> []" "\<not> isspace (last b)"
  shows "rstrip (a @ b) = a @ b"
proof -
  from assms(1) obtain b' x where b: "b = b' @ [x]" by (cases b rule: rev_cases) auto
  with assms(2) have "\<not> isspace x" by simp
  then show ?thesis by (simp add: rstrip_def b)
qed

lemma isspace_newline: "isspace 10"
  by (simp add: isspace_def)

lemma rstrip_append_newline:
  assumes "b \<noteq> []" "\<not> isspace (last b)"
  shows "rstrip (a @ b @ [10]) = a @ b"
proof -
  from assms(1) obtain b' x where b: "b = b' @ [x]" by (cases b rule: rev_cases) auto
  with assms(2) have "\<not> isspace x" by simp
  then show ?thesis by (simp add: rstrip_def b isspace_newline)
qed

lemma rstrip_last: "rstrip s \<noteq> [] \<Longrightarrow> \<not> isspace (last (rstrip s))"
proof -
  assume a: "rstrip s \<noteq> []"
  then have "dropWhile isspace (rev s) \<noteq> []" by (simp add: rstrip_def)
  then have "\<not> isspace (hd (dropWhile isspace (rev s)))" by (rule hd_dropWhile)
  with a show ?thesis by (simp add: rstrip_def last_rev)
qed

lemma strip_last: "strip s \<noteq> [] \<Longrightarrow> \<not> isspace (last (strip s))"
  unfolding strip_def by (rule rstrip_last)

lemma get_stripped_section_patch:
  "get_stripped (section_patch t a c) (ustr ''title'') [] = Inr (strip t)"
  "get_stripped (section_patch t a c) (ustr ''content'') [] = Inr (strip c)"
  "get_stripped (section_patch t a c) (ustr ''action'') (ustr ''append'')
     = Inr (strip (if a = [] then ustr ''append'' else a))"
  by (auto simp: get_stripped_def section_patch_def dict_get_def ustr_def Let_def
      strip_def lstrip_def rstrip_def)

lemma get_stripped_inline_fix:
  "get_stripped (inline_fix (f, r)) (ustr ''find'') [] = Inr (strip f)"
  "get_stripped (inline_fix (f, r)) (ustr ''replace'') [] = Inr (strip r)"
  by (auto simp: get_stripped_def inline_fix_def dict_get_def ustr_def Let_def
      strip_def lstrip_def rstrip_def)

lemma strip_replace: "strip (ustr ''replace'') = ustr ''replace''"
  by (simp add: strip_def lstrip_def rstrip_def ustr_def isspace_def)

lemma report_of_patch_eval:
  "apply_validator_patches lower s (report_of_patch p) = apply_section_patch lower s p"
  by (simp add: apply_validator_patches_def report_of_patch_def dict_get_default_def ustr_def
      split: sum.split)

text \<open>
  A patch whose three fields are missing, \<open>None\<close> or strings never raises when its content
  has no backslash, and is skipped when its stripped title or content is empty.
\<close>

lemma section_patch_noop:
  assumes "get_stripped p (ustr ''title'') [] = Inr title"
    and "get_stripped p (ustr ''action'') (ustr ''append'') = Inr action"
    and "get_stripped p (ustr ''content'') [] = Inr content"
    and "title = [] \<or> content = []"
  shows "apply_section_patch lower s p = Inr s"
  using assms by (auto simp: apply_section_patch_def)

lemma section_patch_no_backslash:
  assumes "get_stripped p (ustr ''title'') [] = Inr title"
    and "get_stripped p (ustr ''action'') (ustr ''append'') = Inr action"
    and "get_stripped p (ustr ''content'') [] = Inr content"
    and "92 \<notin> set content"
  shows "\<exists>r. apply_section_patch lower s p = Inr r"
proof -
  have "parse_template (content @ [10]) = Some (map PLit (content @ [10]))"
    using assms(4) by (intro parse_template_no_backslash) simp
  then show ?thesis
    using assms(1-3)
    by (auto simp: apply_section_patch_def re_sub_section_def Let_def split: option.split)
qed

lemma apply_inline_fixes_map:
  "apply_inline_fixes s (map inline_fix frs) =
     Inr (foldl (\<lambda>t fr. if strip (fst fr) \<noteq> [] \<and> strip (snd fr) \<noteq> []
                              \<and> is_substr (strip (fst fr)) t
                           then py_replace (strip (fst fr)) (strip (snd fr)) t else t) s frs)"
proof (induction frs arbitrary: s)
  case Nil
  show ?case by simp
next
  case (Cons fr frs)
  obtain f r where fr: "fr = (f, r)" by (cases fr)
  show ?case
    by (simp add: fr apply_inline_fix_def get_stripped_inline_fix Cons.IH)
qed

text \<open>
  C9, as the code has it. For a report whose inline fixes are pairs of strings
  \<open>{find, replace}\<close>, \<open>apply_validator_patches\<close> does not raise and applies the fixes in order,
  each to the text the earlier ones left. Both strings are stripped of surrounding
  whitespace first. A fix is applied, as the replacement of every occurrence of the stripped
  \<open>find\<close> by the stripped \<open>replace\<close>, when the stripped \<open>find\<close> is not empty, the stripped
  \<open>replace\<close> is not empty and the stripped \<open>find\<close> occurs in the text; otherwise it is skipped
  and leaves the text as it is.
\<close>

theorem inline_fixes_applied:
  "apply_validator_patches lower s (report_of_fixes frs) =
     Inr (foldl (\<lambda>t fr. if strip (fst fr) \<noteq> [] \<and> strip (snd fr) \<noteq> []
                              \<and> is_substr (strip (fst fr)) t
                           then py_replace (strip (fst fr)) (strip (snd fr)) t else t) s frs)"
  by (simp add: apply_validator_patches_def report_of_fixes_def dict_get_default_def
      ustr_def apply_inline_fixes_map)

text \<open>
  The claim as the specification words it applies a fix whenever \<open>find\<close> is not empty and
  occurs. The fix \<open>{find: "a", replace: ""}\<close> on \<open>"abc"\<close> is skipped by the code, although
  \<open>"a"\<close> occurs and the literal replacement would give \<open>"bc"\<close>.
\<close>

theorem inline_fix_empty_replace_counterexample:
  "apply_validator_patches ascii_lower (ustr ''abc'') (report_of_fixes [(ustr ''a'', [])])
     = Inr (ustr ''abc'')
   \<and> ustr ''a'' \<noteq> [] \<and> is_substr (ustr ''a'') (ustr ''abc'')
   \<and> py_replace (ustr ''a'') [] (ustr ''abc'') = ustr ''bc''"
  by (simp add: patch_eval apply_inline_fixes_map py_replace.simps)

text \<open>
  C8. The text \<open>"T\nold"\<close> has the heading \<open>T\<close>; the patch
  \<open>{title: "T", action: "replace", content: "C:\dir"}\<close> makes \<open>re.sub\<close> read \<open>\d\<close> in its
  template, a bad escape: \<open>apply_validator_patches\<close> raises \<open>re.error\<close>.
\<close>

theorem replace_patch_backslash_raises:
  "apply_validator_patches ascii_lower (ustr ''T\<newline>old'')
     (report_of_patch (section_patch (ustr ''T'') (ustr ''replace'') [67, 58, 92, 100, 105, 114]))
   = Inl ReError"
proof -
  have p: "parse_template [67, 58, 92, 100, 105, 114, 10] = None"
    by (simp add: parse_template_def is_ascii_digit_def is_ascii_letter_def escapes_def)
  have f: "find_section [84, 10, 111, 108, 100] [84] = Some 0"
    by (simp add: regex_eval)
  show ?thesis
    by (simp add: patch_eval p f re_sub_section_def)
qed

text \<open>
  C6, as the code has it. For a \<open>replace\<close> patch whose stripped title and content are not
  empty and a text with no heading line of that title, \<open>apply_validator_patches\<close> appends the
  content: the result is the text without its trailing whitespace, a blank line, the content
  and a newline. If that result has no heading line of the title either (the content does
  not hold one), applying the patch to it appends the content once more, so the second
  application changes the text.
\<close>

theorem replace_patch_absent_appends:
  assumes "lower (ustr ''replace'') = ustr ''replace''"
    and "title = strip raw_title" and "title \<noteq> []"
    and "content = strip raw_content" and "content \<noteq> []"
    and "find_section s title = None"
  shows "apply_validator_patches lower s
           (report_of_patch (section_patch raw_title (ustr ''replace'') raw_content))
         = Inr (rstrip s @ [10, 10] @ content @ [10])
       \<and> (find_section (rstrip s @ [10, 10] @ content @ [10]) title = None \<longrightarrow>
            apply_validator_patches lower (rstrip s @ [10, 10] @ content @ [10])
              (report_of_patch (section_patch raw_title (ustr ''replace'') raw_content))
            = Inr (rstrip s @ [10, 10] @ content @ [10, 10] @ content @ [10])
          \<and> rstrip s @ [10, 10] @ content @ [10, 10] @ content @ [10]
              \<noteq> rstrip s @ [10, 10] @ content @ [10])"
proof -
  have ne: "ustr ''replace'' \<noteq> ustr ''insert''" "ustr ''replace'' \<noteq> []"
    by (simp_all add: ustr_def)
  have step: "apply_validator_patches lower x
           (report_of_patch (section_patch raw_title (ustr ''replace'') raw_content))
         = Inr (rstrip x @ [10, 10] @ content @ [10])"
    if "find_section x title = None" for x
    using that assms(1-5) ne
    by (simp add: report_of_patch_eval apply_section_patch_def get_stripped_section_patch
        strip_replace append_section_def)
  have last: "\<not> isspace (last content)"
    using assms(4,5) strip_last by blast
  have "rstrip ((rstrip s @ [10, 10]) @ content @ [10]) = (rstrip s @ [10, 10]) @ content"
    using assms(5) last by (rule rstrip_append_newline)
  then have rs: "rstrip (rstrip s @ 10 # 10 # content @ [10]) = rstrip s @ 10 # 10 # content"
    by simp
  show ?thesis
    using step [OF assms(6)] step [of "rstrip s @ [10, 10] @ content @ [10]"] assms(5)
    by (simp add: rs)
qed

theorem replace_patch_absent_witness:
  "apply_validator_patches ascii_lower (ustr ''Intro'')
     (report_of_patch (section_patch (ustr ''SUMMARY'') (ustr ''replace'') (ustr ''Done.'')))
   = Inr (ustr ''Intro\<newline>\<newline>Done.\<newline>'')
   \<and> apply_validator_patches ascii_lower (ustr ''Intro\<newline>\<newline>Done.\<newline>'')
     (report_of_patch (section_patch (ustr ''SUMMARY'') (ustr ''replace'') (ustr ''Done.'')))
   = Inr (ustr ''Intro\<newline>\<newline>Done.\<newline>\<newline>Done.\<newline>'')"
proof -
  have l: "ascii_lower (ustr ''replace'') = ustr ''replace''"
    by (simp add: ascii_lower_def ustr_def)
  have t: "ustr ''SUMMARY'' = strip (ustr ''SUMMARY'')" "ustr ''SUMMARY'' \<noteq> []"
    by (simp_all add: strip_def lstrip_def rstrip_def ustr_def isspace_def)
  have c: "ustr ''Done.'' = strip (ustr ''Done.'')" "ustr ''Done.'' \<noteq> []"
    by (simp_all add: strip_def lstrip_def rstrip_def ustr_def isspace_def)
  have f1: "find_section (ustr ''Intro'') (ustr ''SUMMARY'') = None"
    by (simp add: regex_eval ustr_def)
  have f2: "find_section (ustr ''Intro\<newline>\<newline>Done.\<newline>'') (ustr ''SUMMARY'') = None"
    by (simp add: regex_eval ustr_def)
  have u1: "rstrip (ustr ''Intro'') @ [10, 10] @ ustr ''Done.'' @ [10]
              = ustr ''Intro\<newline>\<newline>Done.\<newline>''"
    by (simp add: rstrip_def ustr_def isspace_def)
  have u2: "rstrip (ustr ''Intro'') @ [10, 10] @ ustr ''Done.'' @ [10, 10] @ ustr ''Done.'' @ [10]
              = ustr ''Intro\<newline>\<newline>Done.\<newline>\<newline>Done.\<newline>''"
    by (simp add: rstrip_def ustr_def isspace_def)
  have "apply_validator_patches ascii_lower (ustr ''Intro'')
           (report_of_patch (section_patch (ustr ''SUMMARY'') (ustr ''replace'') (ustr ''Done.'')))
         = Inr (rstrip (ustr ''Intro'') @ [10, 10] @ ustr ''Done.'' @ [10])
       \<and> (find_section (rstrip (ustr ''Intro'') @ [10, 10] @ ustr ''Done.'' @ [10])
              (ustr ''SUMMARY'') = None \<longrightarrow>
            apply_validator_patches ascii_lower
              (rstrip (ustr ''Intro'') @ [10, 10] @ ustr ''Done.'' @ [10])
              (report_of_patch (section_patch (ustr ''SUMMARY'') (ustr ''replace'') (ustr ''Done.'')))
            = Inr (rstrip (ustr ''Intro'') @ [10, 10] @ ustr ''Done.'' @ [10, 10]
                   @ ustr ''Done.'' @ [10])
          \<and> rstrip (ustr ''Intro'') @ [10, 10] @ ustr ''Done.'' @ [10, 10] @ ustr ''Done.'' @ [10]
              \<noteq> rstrip (ustr ''Intro'') @ [10, 10] @ ustr ''Done.'' @ [10])"
    using l t c f1 by (rule replace_patch_absent_appends)
  then show ?thesis unfolding u1 u2 using f2 by blast
qed

text \<open>
  The claim as the specification words it fails: the patch
  \<open>{title: "SUMMARY", action: "replace", content: "Done."}\<close> applied to \<open>"Intro"\<close> gives
  \<open>"Intro\n\nDone.\n"\<close>, and applied to that gives \<open>"Intro\n\nDone.\n\nDone.\n"\<close>.
\<close>

theorem replace_patch_twice_counterexample:
  "apply_validator_patches ascii_lower (ustr ''Intro'')
     (report_of_patch (section_patch (ustr ''SUMMARY'') (ustr ''replace'') (ustr ''Done.'')))
   = Inr (ustr ''Intro\<newline>\<newline>Done.\<newline>'')
   \<and> apply_validator_patches ascii_lower (ustr ''Intro\<newline>\<newline>Done.\<newline>'')
     (report_of_patch (section_patch (ustr ''SUMMARY'') (ustr ''replace'') (ustr ''Done.'')))
   = Inr (ustr ''Intro\<newline>\<newline>Done.\<newline>\<newline>Done.\<newline>'')
   \<and> ustr ''Intro\<newline>\<newline>Done.\<newline>\<newline>Done.\<newline>'' \<noteq> ustr ''Intro\<newline>\<newline>Done.\<newline>''"
proof -
  have f1: "find_section (ustr ''Intro'') (ustr ''SUMMARY'') = None"
    by (simp add: regex_eval ustr_def)
  have f2: "find_section (ustr ''Intro\<newline>\<newline>Done.\<newline>'') (ustr ''SUMMARY'') = None"
    by (simp add: regex_eval ustr_def)
  have a1: "apply_validator_patches ascii_lower (ustr ''Intro'')
     (report_of_patch (section_patch (ustr ''SUMMARY'') (ustr ''replace'') (ustr ''Done.'')))
   = Inr (ustr ''Intro\<newline>\<newline>Done.\<newline>'')"
    using f1 by (simp add: report_of_patch_eval apply_section_patch_def
        get_stripped_section_patch) (simp add: patch_eval)
  have a2: "apply_validator_patches ascii_lower (ustr ''Intro\<newline>\<newline>Done.\<newline>'')
     (report_of_patch (section_patch (ustr ''SUMMARY'') (ustr ''replace'') (ustr ''Done.'')))
   = Inr (ustr ''Intro\<newline>\<newline>Done.\<newline>\<newline>Done.\<newline>'')"
    using f2 by (simp add: report_of_patch_eval apply_section_patch_def
        get_stripped_section_patch) (simp add: patch_eval)
  show ?thesis using a1 a2 by (simp add: ustr_def)
qed

section \<open>Properties of the response parser\<close>

lemma map_of_map_value:
  "map_of (map (\<lambda>kv. if P (fst kv) then (fst kv, f (snd kv)) else kv) kvs) k
     = (if P k then map_option f (map_of kvs k) else map_of kvs k)"
  by (induction kvs) auto

lemma coerce_numbers_object:
  "coerce_numbers py_float (JObj kvs0) =
     Inr (JObj (map (\<lambda>kv. if fst kv \<in> set number_fields
                            then (fst kv, JFloat (to_float py_float (snd kv) 0))
                            else kv) kvs0))"
  by (simp add: coerce_numbers_def)

lemma coerce_numbers_not_object:
  assumes "\<forall>kvs. d \<noteq> JObj kvs" and "coerce_numbers py_float d = Inr d1"
  shows "d1 = d \<and> (\<forall>kvs. d1 \<noteq> JObj kvs)"
  using assms by (cases d) (auto simp: coerce_numbers_def split: if_splits)

lemma setdefault_list_object:
  "setdefault_list key (JObj kvs) =
     Inr (JObj (if map_of kvs key = None then kvs @ [(key, JArr [])] else kvs))"
  by (simp add: setdefault_list_def)

lemma setdefault_list_not_object:
  "\<forall>kvs. d \<noteq> JObj kvs \<Longrightarrow> setdefault_list key d = Inl AttributeError"
  by (cases d) (auto simp: setdefault_list_def)

lemma map_of_setdefault:
  "map_of (if map_of kvs key = None then kvs @ [(key, v)] else kvs) k
     = (if k = key then Some (case map_of kvs key of None \<Rightarrow> v | Some w \<Rightarrow> w)
        else map_of kvs k)"
  by (auto simp: map_add_def split: option.splits)

lemma fields_distinct:
  "ustr ''issues'' \<notin> set number_fields" "ustr ''suggestions'' \<notin> set number_fields"
  "ustr ''issues'' \<noteq> ustr ''suggestions''"
  by (simp_all add: number_fields_def ustr_def)

text \<open>Unfolding rules for evaluating the extraction and the repairs on a given reply.\<close>

lemmas parser_eval =
  load_data_def extract_json_block_def brace_span_def repair_def strip_def lstrip_def
  rstrip_def isspace_def ustr_def Let_def py_replace.simps fence_sub.simps
  score_string_sub.simps score_string_at_def re_digit_def digit_blocks_def

text \<open>
  When the strict parse and the parse of the repaired candidate both fail, the parser
  returns the default report: score 5.0 and the one issue that names the parse failure.
\<close>

lemma parse_default_report:
  assumes "json_loads (extract_json_block (py_replace [9] [32] (py_replace [13] [32] content)))
             = None"
    and "json_loads (repair (extract_json_block
             (py_replace [9] [32] (py_replace [13] [32] content)))) = None"
  shows "parse_validation_response json_loads py_float content = Inr default_data"
proof -
  have d: "load_data json_loads content = default_data"
    using assms by (simp add: load_data_def)
  show ?thesis
    unfolding parse_validation_response_def d
    by (simp add: default_data_def coerce_numbers_def setdefault_list_def number_fields_def
        ustr_def to_float_def)
qed

text \<open>
  C1. When \<open>json.loads\<close> succeeds on the extracted candidate with a value that is not an
  object (a number, a string, a list, \<open>true\<close>, \<open>null\<close>), \<open>parse_validation_response\<close> raises:
  \<open>TypeError\<close> in \<open>_coerce_numbers\<close>, or \<open>AttributeError\<close> at \<open>data.setdefault\<close>.
\<close>

theorem parse_raises_on_non_object:
  assumes "json_loads (extract_json_block (py_replace [9] [32] (py_replace [13] [32] content)))
             = Some v"
    and "\<forall>kvs. v \<noteq> JObj kvs"
  shows "\<exists>e. parse_validation_response json_loads py_float content = Inl e"
proof -
  have d: "load_data json_loads content = v"
    using assms(1) by (simp add: load_data_def)
  show ?thesis
  proof (cases "coerce_numbers py_float v")
    case (Inl e)
    then show ?thesis by (simp add: parse_validation_response_def d)
  next
    case (Inr d1)
    from coerce_numbers_not_object [OF assms(2) Inr] have "\<forall>kvs. d1 \<noteq> JObj kvs" by blast
    then show ?thesis
      by (simp add: parse_validation_response_def d Inr setdefault_list_not_object)
  qed
qed

text \<open>
  The reply \<open>"7.5"\<close>, a bare score, has no brace, so the candidate is the reply itself, and
  \<open>json.loads("7.5")\<close> is the float 7.5.
\<close>

theorem parse_raises_on_non_object_witness:
  "extract_json_block (py_replace [9] [32] (py_replace [13] [32] (ustr ''7.5''))) = ustr ''7.5''
   \<and> (\<exists>e. parse_validation_response
              (\<lambda>s. if s = ustr ''7.5'' then Some (JFloat 7.5) else None)
              (\<lambda>s. None) (ustr ''7.5'') = Inl e)"
proof -
  have x: "extract_json_block (py_replace [9] [32] (py_replace [13] [32] (ustr ''7.5'')))
             = ustr ''7.5''"
    by (simp add: parser_eval)
  show ?thesis
    using parse_raises_on_non_object
      [of "\<lambda>s. if s = ustr ''7.5'' then Some (JFloat 7.5) else None" "ustr ''7.5''"
        "JFloat 7.5" "\<lambda>s. None"] x
    by simp
qed

text \<open>
  C2, as the code has it. \<open>parse_validation_response\<close> returns exactly when the data it loaded
  is an object, and then the report is that object with these changes only: each of
  \<open>score\<close>, \<open>structure\<close>, \<open>content\<close>, \<open>language\<close>, \<open>formatting\<close> that is present is replaced by
  a float (\<open>_to_float\<close> of it, 0.0 where it is not a number; nothing is clamped, and a key that
  is absent stays absent); \<open>issues\<close> and \<open>suggestions\<close> are set to an empty list when absent
  and kept as they are otherwise, \<open>null\<close> included; every other key, \<open>section_patches\<close> and
  \<open>inline_fixes\<close> among them, is as loaded.
\<close>

theorem parse_report_fields:
  "case parse_validation_response json_loads py_float content of
     Inl e \<Rightarrow> (\<forall>kvs. load_data json_loads content \<noteq> JObj kvs)
   | Inr r \<Rightarrow>
       (\<exists>kvs0 kvs. load_data json_loads content = JObj kvs0 \<and> r = JObj kvs \<and>
          (\<forall>k. map_of kvs k =
             (if k \<in> set number_fields
              then map_option (\<lambda>v. JFloat (to_float py_float v 0)) (map_of kvs0 k)
              else if k = ustr ''issues'' \<or> k = ustr ''suggestions''
              then Some (case map_of kvs0 k of None \<Rightarrow> JArr [] | Some v \<Rightarrow> v)
              else map_of kvs0 k)))"
proof (cases "\<exists>kvs0. load_data json_loads content = JObj kvs0")
  case True
  then obtain kvs0 where d: "load_data json_loads content = JObj kvs0" by blast
  define kvs1 where "kvs1 = map (\<lambda>kv. if fst kv \<in> set number_fields
                            then (fst kv, JFloat (to_float py_float (snd kv) 0))
                            else kv) kvs0"
  define kvs2 where "kvs2 = (if map_of kvs1 (ustr ''issues'') = None
                             then kvs1 @ [(ustr ''issues'', JArr [])] else kvs1)"
  define kvs3 where "kvs3 = (if map_of kvs2 (ustr ''suggestions'') = None
                             then kvs2 @ [(ustr ''suggestions'', JArr [])] else kvs2)"
  have r: "parse_validation_response json_loads py_float content = Inr (JObj kvs3)"
    by (simp add: parse_validation_response_def d coerce_numbers_object
        setdefault_list_object kvs1_def kvs2_def kvs3_def)
  have m1: "map_of kvs1 k = (if k \<in> set number_fields
              then map_option (\<lambda>v. JFloat (to_float py_float v 0)) (map_of kvs0 k)
              else map_of kvs0 k)" for k
    unfolding kvs1_def by (rule map_of_map_value)
  have m2: "map_of kvs2 k = (if k = ustr ''issues''
              then Some (case map_of kvs1 (ustr ''issues'') of None \<Rightarrow> JArr [] | Some w \<Rightarrow> w)
              else map_of kvs1 k)" for k
    unfolding kvs2_def by (rule map_of_setdefault)
  have m3: "map_of kvs3 k = (if k = ustr ''suggestions''
              then Some (case map_of kvs2 (ustr ''suggestions'') of None \<Rightarrow> JArr [] | Some w \<Rightarrow> w)
              else map_of kvs2 k)" for k
    unfolding kvs3_def by (rule map_of_setdefault)
  have "map_of kvs3 k =
             (if k \<in> set number_fields
              then map_option (\<lambda>v. JFloat (to_float py_float v 0)) (map_of kvs0 k)
              else if k = ustr ''issues'' \<or> k = ustr ''suggestions''
              then Some (case map_of kvs0 k of None \<Rightarrow> JArr [] | Some v \<Rightarrow> v)
              else map_of kvs0 k)" for k
    using fields_distinct by (auto simp: m1 m2 m3)
  with r d show ?thesis by simp
next
  case False
  then have n: "\<forall>kvs. load_data json_loads content \<noteq> JObj kvs" by blast
  have "\<exists>e. parse_validation_response json_loads py_float content = Inl e"
  proof (cases "coerce_numbers py_float (load_data json_loads content)")
    case (Inl e)
    then show ?thesis by (simp add: parse_validation_response_def)
  next
    case (Inr d1)
    from coerce_numbers_not_object [OF n Inr] have "\<forall>kvs. d1 \<noteq> JObj kvs" by blast
    then show ?thesis
      by (simp add: parse_validation_response_def Inr setdefault_list_not_object)
  qed
  with n show ?thesis by auto
qed

text \<open>
  The reply of the specification's second example, with \<open>json.loads\<close> given on the repaired
  candidate (it fails on the candidate itself, where the score is written \<open>9,2\<close>).
\<close>

theorem parse_report_fields_witness:
  \<open>\<exists>kvs. parse_validation_response
       (\<lambda>s. if s = ustr ''{"score": 9.2, "issues": []}''
            then Some (JObj [(ustr ''score'', JFloat 9.2), (ustr ''issues'', JArr [])])
            else None)
       (\<lambda>s. None) (ustr ''Here is the result: {"score": 9,2, "issues": []}'')
     = Inr (JObj kvs)
     \<and> map_of kvs (ustr ''score'') = Some (JFloat 9.2)
     \<and> map_of kvs (ustr ''issues'') = Some (JArr [])
     \<and> map_of kvs (ustr ''suggestions'') = Some (JArr [])
     \<and> map_of kvs (ustr ''section_patches'') = None\<close>
proof -
  let ?loads = \<open>\<lambda>s. if s = ustr ''{"score": 9.2, "issues": []}''
            then Some (JObj [(ustr ''score'', JFloat 9.2), (ustr ''issues'', JArr [])])
            else None\<close>
  let ?content = \<open>ustr ''Here is the result: {"score": 9,2, "issues": []}''\<close>
  have x: \<open>extract_json_block (py_replace [9] [32] (py_replace [13] [32] ?content))
            = ustr ''{"score": 9,2, "issues": []}''\<close>
    by (simp add: parser_eval)
  have r: \<open>repair (ustr ''{"score": 9,2, "issues": []}'') = ustr ''{"score": 9.2, "issues": []}''\<close>
    by (simp add: parser_eval)
  have d: "load_data ?loads ?content
             = JObj [(ustr ''score'', JFloat 9.2), (ustr ''issues'', JArr [])]"
    unfolding load_data_def Let_def x r by (simp add: ustr_def)
  show ?thesis
    using parse_report_fields [where json_loads = ?loads and py_float = "\<lambda>s. None"
        and content = ?content]
    unfolding d
    by (auto split: sum.splits simp: to_float_def number_fields_def ustr_def)
qed

text \<open>
  The claim as the specification words it fails on the reply \<open>{"score": 15}\<close>: the report
  has the score 15.0, above 10, and no key \<open>section_patches\<close>.
\<close>

theorem parse_report_fields_counterexample:
  \<open>parse_validation_response
     (\<lambda>s. if s = ustr ''{"score": 15}'' then Some (JObj [(ustr ''score'', JInt 15)]) else None)
     (\<lambda>s. None) (ustr ''{"score": 15}'')
   = Inr (JObj [(ustr ''score'', JFloat 15), (ustr ''issues'', JArr []),
                (ustr ''suggestions'', JArr [])])
   \<and> \<not> (15::real) \<le> 10
   \<and> map_of [(ustr ''score'', JFloat 15), (ustr ''issues'', JArr []),
              (ustr ''suggestions'', JArr [])] (ustr ''section_patches'') = None\<close>
proof -
  have x: \<open>extract_json_block (py_replace [9] [32] (py_replace [13] [32] (ustr ''{"score": 15}'')))
            = ustr ''{"score": 15}''\<close>
    by (simp add: parser_eval)
  have d: \<open>load_data
     (\<lambda>s. if s = ustr ''{"score": 15}'' then Some (JObj [(ustr ''score'', JInt 15)]) else None)
     (ustr ''{"score": 15}'') = JObj [(ustr ''score'', JInt 15)]\<close>
    unfolding load_data_def Let_def x by simp
  show ?thesis
    unfolding parse_validation_response_def d
    by (simp add: coerce_numbers_def setdefault_list_def number_fields_def ustr_def to_float_def)
qed

end
